theory Spec2Isabelle
  imports Complex_Main "HOL-Library.Signed_Division"
begin

section \<open>JavaScript values shared by the three game scripts\<close>

text \<open>
  The repository holds three scripts of the snake game: \<^verbatim>\<open>src/game.js\<close> (smooth
  movement in canvas pixels; names suffixed \<open>_g\<close> below), the script \<^verbatim>\<open>app.js\<close> in
  \<^verbatim>\<open>src/unnamed/part_000\<close> (a 28 x 28 wrap-around grid with obstacles; suffix \<open>_a\<close>)
  and the script \<^verbatim>\<open>game.js\<close> in \<^verbatim>\<open>src/unnamed/part_001\<close> (cell-quantised movement
  inside walls; suffix \<open>_c\<close>). Names that occur in one script only keep the source's name.

  Numbers: grid cells, directions and scores are integers (\<open>int\<close>, unbounded: the
  language's numbers are exact up to \<open>2^53\<close>, far above any score); pixel coordinates and
  times are doubles, idealised as \<open>real\<close>. A number read back from storage may be
  \<open>NaN\<close>, so those are \<open>jsnum\<close>. Drawing, sound and the DOM are not modelled.
\<close>

datatype jsnum = NaN | Num int

datatype error = TypeError | RangeError

type_synonym pos = "int \<times> int"

type_synonym localStorage = "string \<rightharpoonup> string"

text \<open>\<open>rnd k\<close> is the value returned by the \<open>k\<close>-th call of \<^verbatim>\<open>Math.random()\<close>.\<close>

type_synonym random = "nat \<Rightarrow> real"

text \<open>\<^verbatim>\<open>a > b\<close> where \<open>b\<close> may be \<open>NaN\<close>: every comparison with \<open>NaN\<close> is false.\<close>

fun gt :: "int \<Rightarrow> jsnum \<Rightarrow> bool" where
  "gt a NaN = False"
| "gt a (Num b) = (a > b)"

text \<open>\<^verbatim>\<open>Math.floor(Math.random() * (max - min + 1)) + min\<close>\<close>

definition randInt :: "int \<Rightarrow> int \<Rightarrow> real \<Rightarrow> int" where
  "randInt mn mx u = \<lfloor>u * of_int (mx - mn + 1)\<rfloor> + mn"

text \<open>\<^verbatim>\<open>Math.round\<close> rounds halves up.\<close>

definition Math_round :: "real \<Rightarrow> int" where
  "Math_round v = \<lfloor>v + 1 / 2\<rfloor>"

definition posEq :: "pos \<Rightarrow> pos \<Rightarrow> bool" where
  "posEq a b \<longleftrightarrow> fst a = fst b \<and> snd a = snd b"

text \<open>The exact negation \<open>(-x, -y)\<close> of a direction.\<close>

definition reverse :: "pos \<Rightarrow> pos" where
  "reverse d = (- fst d, - snd d)"

subsection \<open>\<^verbatim>\<open>String(n)\<close> and \<^verbatim>\<open>parseInt(s, 10)\<close>\<close>

definition digitChar :: "nat \<Rightarrow> char" where
  "digitChar d = ''0123456789'' ! d"

fun digits :: "nat \<Rightarrow> string" where
  "digits n = (if n < 10 then [digitChar n] else digits (n div 10) @ [digitChar (n mod 10)])"

declare digits.simps [simp del]

text \<open>The decimal rendering of an integer, as \<^verbatim>\<open>String\<close> gives it for a score.\<close>

definition String_js :: "int \<Rightarrow> string" where
  "String_js n = (if n < 0 then CHR ''-'' # digits (nat (- n)) else digits (nat n))"

text \<open>The ASCII part of the language's white space and line terminators.\<close>

definition isWhiteSpace :: "char \<Rightarrow> bool" where
  "isWhiteSpace c \<longleftrightarrow> c \<in> set [CHR 0x09, CHR 0x0A, CHR 0x0B, CHR 0x0C, CHR 0x0D, CHR 0x20]"

definition isDigit :: "char \<Rightarrow> bool" where
  "isDigit c \<longleftrightarrow> 48 \<le> (of_char c :: nat) \<and> (of_char c :: nat) \<le> 57"

definition digitVal :: "char \<Rightarrow> nat" where
  "digitVal c = of_char c - 48"

text \<open>
  \<^verbatim>\<open>parseInt(str, 10)\<close>: leading white space is skipped, one sign is read, then the
  longest run of decimal digits; no digit at all gives \<open>NaN\<close>.
\<close>

definition parseInt :: "string \<Rightarrow> jsnum" where
  "parseInt str =
     (let S = dropWhile isWhiteSpace str;
          sign = (case S of c # r \<Rightarrow> if c = CHR ''-'' then - 1 else 1 | [] \<Rightarrow> (1::int));
          S1 = (case S of c # r \<Rightarrow> if c = CHR ''-'' \<or> c = CHR ''+'' then r else S | [] \<Rightarrow> S);
          Z = takeWhile isDigit S1
      in if Z = [] then NaN else Num (sign * int (foldl (\<lambda>a c. 10 * a + digitVal c) 0 Z)))"

text \<open>
  \<^verbatim>\<open>localStorage.getItem(key) || dflt\<close>: a missing key gives \<open>null\<close> and the empty
  string is falsy, so both yield the default.
\<close>

definition getItem_or :: "localStorage \<Rightarrow> string \<Rightarrow> string \<Rightarrow> string" where
  "getItem_or st key dflt = (case st key of None \<Rightarrow> dflt | Some v \<Rightarrow> if v = [] then dflt else v)"

definition setItem :: "localStorage \<Rightarrow> string \<Rightarrow> string \<Rightarrow> localStorage" where
  "setItem st key v = st(key \<mapsto> v)"

text \<open>\<^verbatim>\<open>a % b\<close> on integers keeps the sign of the dividend: it is \<open>smod\<close>.\<close>

definition js_rem :: "int \<Rightarrow> int \<Rightarrow> int" where
  "js_rem a b = a smod b"

text \<open>\<^verbatim>\<open>xs.some((x, idx) => p(x, idx))\<close>\<close>

definition some_idx :: "('a \<Rightarrow> nat \<Rightarrow> bool) \<Rightarrow> 'a list \<Rightarrow> bool" where
  "some_idx p xs = list_ex (\<lambda>(idx, v). p v idx) (enumerate 0 xs)"

section \<open>\<^verbatim>\<open>app.js\<close> (part_000): the wrap-around grid with obstacles\<close>

definition width :: int where
  "width = 28"

definition rows_a :: int where
  "rows_a = 28"

record app =
  snake_a :: "pos list"
  dir_a :: pos
  nextDir_a :: pos
  apple_a :: "pos option"
  obstacles_a :: "pos list"
  score_a :: int
  highScore_a :: jsnum
  gameInterval_a :: bool
  running_a :: bool
  paused_a :: bool
  countdownTimer_a :: bool
  countdownValue_a :: int
  allowInput_a :: bool
  difficulty_a :: string
  localStorage_a :: localStorage
  calls_a :: nat

text \<open>\<^verbatim>\<open>let highScore = parseInt(localStorage.getItem('snake_high') || '0', 10);\<close>\<close>

definition loadHighScore_a :: "localStorage \<Rightarrow> jsnum" where
  "loadHighScore_a st = parseInt (getItem_or st ''snake_high'' ''0'')"

text \<open>
  \<open>spawnApple\<close>: the loop \<^verbatim>\<open>while(attempts < 500)\<close>, started at \<open>attempts = 0\<close>. Every
  attempt calls \<^verbatim>\<open>Math.random()\<close> twice, so \<open>calls_a\<close> counts the attempts made.
\<close>

function spawnApple_while :: "random \<Rightarrow> nat \<Rightarrow> app \<Rightarrow> app" where
  "spawnApple_while rnd attempts s =
     (if attempts < 500 then
        (let p = (randInt 1 (width - 2) (rnd (calls_a s)),
                  randInt 1 (rows_a - 2) (rnd (calls_a s + 1)));
             s' = s\<lparr>calls_a := calls_a s + 2\<rparr>
         in if list_ex (\<lambda>seg. posEq seg p) (snake_a s') then spawnApple_while rnd (attempts + 1) s'
            else if list_ex (\<lambda>ob. posEq ob p) (obstacles_a s') then spawnApple_while rnd (attempts + 1) s'
            else s'\<lparr>apple_a := Some p\<rparr>)
      else s\<lparr>apple_a := None\<rparr>)"
  by pat_completeness auto
termination
  by (relation "measure (\<lambda>(rnd, attempts, s). 500 - attempts)") auto

declare spawnApple_while.simps [simp del]

definition spawnApple :: "random \<Rightarrow> app \<Rightarrow> app" where
  "spawnApple rnd s = spawnApple_while rnd 0 s"

definition obstacleCount :: "string \<Rightarrow> nat" where
  "obstacleCount d =
     (if d = ''hard'' then 6 else if d = ''medium'' then 4 else if d = ''easy'' then 2 else 3)"

function spawnObstacles_while :: "random \<Rightarrow> nat \<Rightarrow> nat \<Rightarrow> app \<Rightarrow> app" where
  "spawnObstacles_while rnd count tries s =
     (if length (obstacles_a s) < count \<and> tries < 1000 then
        (let ob = (randInt 2 (width - 3) (rnd (calls_a s)),
                   randInt 2 (rows_a - 3) (rnd (calls_a s + 1)));
             s' = s\<lparr>calls_a := calls_a s + 2\<rparr>
         in if list_ex (\<lambda>seg. posEq seg ob) (snake_a s') then spawnObstacles_while rnd count (tries + 1) s'
            else if (case apple_a s' of None \<Rightarrow> False | Some a \<Rightarrow> posEq a ob)
              then spawnObstacles_while rnd count (tries + 1) s'
            else if list_ex (\<lambda>b. posEq b ob) (obstacles_a s') then spawnObstacles_while rnd count (tries + 1) s'
            else spawnObstacles_while rnd count (tries + 1) (s'\<lparr>obstacles_a := obstacles_a s' @ [ob]\<rparr>))
      else s)"
  by pat_completeness auto
termination
  by (relation "measure (\<lambda>(rnd, count, tries, s). 1000 - tries)") auto

declare spawnObstacles_while.simps [simp del]

definition spawnObstaclesInitial :: "random \<Rightarrow> app \<Rightarrow> app" where
  "spawnObstaclesInitial rnd s =
     spawnObstacles_while rnd (obstacleCount (difficulty_a s)) 0 (s\<lparr>obstacles_a := []\<rparr>)"

definition maybeAddObstacle :: "random \<Rightarrow> app \<Rightarrow> app" where
  "maybeAddObstacle rnd s =
     (let s1 = s\<lparr>calls_a := calls_a s + 1\<rparr>
      in if rnd (calls_a s) < 8 / 100 then
           (let ob = (randInt 1 (width - 2) (rnd (calls_a s1)),
                      randInt 1 (rows_a - 2) (rnd (calls_a s1 + 1)));
                s2 = s1\<lparr>calls_a := calls_a s1 + 2\<rparr>
            in if list_ex (\<lambda>seg. posEq seg ob) (snake_a s2) then s2
               else if (case apple_a s2 of None \<Rightarrow> False | Some a \<Rightarrow> posEq a ob) then s2
               else if list_ex (\<lambda>b. posEq b ob) (obstacles_a s2) then s2
               else s2\<lparr>obstacles_a := obstacles_a s2 @ [ob]\<rparr>)
         else s1)"

text \<open>\<open>gameOver\<close>: the only place of this script that compares the score with the high score.\<close>

definition gameOver :: "app \<Rightarrow> app" where
  "gameOver s =
     (let s1 = s\<lparr>running_a := False, paused_a := False, gameInterval_a := False\<rparr>
      in if gt (score_a s1) (highScore_a s1)
         then s1\<lparr>highScore_a := Num (score_a s1),
                 localStorage_a := setItem (localStorage_a s1) ''snake_high'' (String_js (score_a s1))\<rparr>
         else s1)"

text \<open>
  The branch \<^verbatim>\<open>// Eat apple\<close> of \<open>tick\<close>: ten points, a new apple, and with
  probability 0.25 a call of \<open>maybeAddObstacle\<close>. The high score is not looked at.
\<close>

definition eatApple :: "random \<Rightarrow> app \<Rightarrow> app" where
  "eatApple rnd s1 =
     (let s3 = spawnApple rnd (s1\<lparr>score_a := score_a s1 + 10\<rparr>);
          s4 = s3\<lparr>calls_a := calls_a s3 + 1\<rparr>
      in if rnd (calls_a s3) < 25 / 100 then maybeAddObstacle rnd s4 else s4)"

text \<open>
  \<open>tick\<close>. \<^verbatim>\<open>snake[0]\<close> of an empty snake is \<open>undefined\<close>, and reading its \<open>x\<close> throws.
  The self-collision test looks at every segment of index above 0 of the snake as it is
  before the move, the tail included.
\<close>

definition tick :: "random \<Rightarrow> app \<Rightarrow> error + app" where
  "tick rnd s0 =
     (let s = s0\<lparr>dir_a := nextDir_a s0\<rparr>
      in case snake_a s of
           [] \<Rightarrow> Inl TypeError
         | h # _ \<Rightarrow>
            (let head = (js_rem (fst h + fst (dir_a s) + width) width,
                         js_rem (snd h + snd (dir_a s) + rows_a) rows_a)
             in if some_idx (\<lambda>seg idx. idx > 0 \<and> posEq seg head) (snake_a s) then Inr (gameOver s)
                else if list_ex (\<lambda>ob. posEq ob head) (obstacles_a s) then Inr (gameOver s)
                else
                  (let s1 = s\<lparr>snake_a := head # snake_a s\<rparr>;
                       s2 = (if (case apple_a s1 of None \<Rightarrow> False | Some a \<Rightarrow> posEq head a)
                             then eatApple rnd s1
                             else s1\<lparr>snake_a := butlast (snake_a s1)\<rparr>)
                   in Inr (s2\<lparr>allowInput_a := True\<rparr>))))"

text \<open>The interval started by \<open>beginGameLoop\<close> runs \<^verbatim>\<open>if(!paused) tick();\<close>.\<close>

definition intervalFire :: "random \<Rightarrow> app \<Rightarrow> error + app" where
  "intervalFire rnd s = (if gameInterval_a s \<and> \<not> paused_a s then tick rnd s else Inr s)"

definition resetGame_a :: "random \<Rightarrow> app \<Rightarrow> app" where
  "resetGame_a rnd s =
     spawnObstaclesInitial rnd (spawnApple rnd
       (s\<lparr>snake_a := [(width div 2, rows_a div 2)], dir_a := (1, 0), nextDir_a := (1, 0),
          apple_a := None, obstacles_a := [], score_a := 0, allowInput_a := True,
          running_a := False, paused_a := False, gameInterval_a := False\<rparr>))"

definition beginGameLoop :: "app \<Rightarrow> app" where
  "beginGameLoop s = s\<lparr>running_a := True, paused_a := False, gameInterval_a := True\<rparr>"

definition startWithCountdown :: "app \<Rightarrow> app" where
  "startWithCountdown s =
     (if running_a s then s else s\<lparr>countdownValue_a := 3, countdownTimer_a := True\<rparr>)"

text \<open>
  The callback of the countdown's one-second interval. \<open>startWithCountdown\<close> can start a
  second interval while one is live (the space key during the countdown) and only the
  newest one is ever cleared, so the callback is taken to be able to fire in any state.
\<close>

definition countdownFire :: "app \<Rightarrow> app" where
  "countdownFire s =
     (let s1 = s\<lparr>countdownValue_a := countdownValue_a s - 1\<rparr>
      in if countdownValue_a s1 > 0 then s1
         else beginGameLoop (s1\<lparr>countdownTimer_a := False\<rparr>))"

definition togglePause_a :: "app \<Rightarrow> app" where
  "togglePause_a s = (if \<not> running_a s then s else s\<lparr>paused_a := \<not> paused_a s\<rparr>)"

definition mapping :: "string \<Rightarrow> pos option" where
  "mapping dirStr =
     (if dirStr = ''up'' then Some (0, - 1) else if dirStr = ''down'' then Some (0, 1)
      else if dirStr = ''left'' then Some (- 1, 0) else if dirStr = ''right'' then Some (1, 0)
      else None)"

definition applyDirection :: "string \<Rightarrow> app \<Rightarrow> app" where
  "applyDirection dirStr s =
     (if \<not> allowInput_a s then s
      else case mapping dirStr of
             None \<Rightarrow> s
           | Some newDir \<Rightarrow>
               if fst newDir = - fst (dir_a s) \<and> snd newDir = - snd (dir_a s) then s
               else s\<lparr>nextDir_a := newDir, allowInput_a := False\<rparr>)"

text \<open>The \<^verbatim>\<open>keydown\<close> listener: a chain of independent \<^verbatim>\<open>if\<close>s on the key.\<close>

definition keydown_a :: "string \<Rightarrow> app \<Rightarrow> app" where
  "keydown_a key s =
     (if \<not> allowInput_a s then s
      else
        (let s1 = (if key = ''ArrowUp'' \<and> snd (dir_a s) = 0
                   then s\<lparr>nextDir_a := (0, - 1), allowInput_a := False\<rparr> else s);
             s2 = (if key = ''ArrowDown'' \<and> snd (dir_a s1) = 0
                   then s1\<lparr>nextDir_a := (0, 1), allowInput_a := False\<rparr> else s1);
             s3 = (if key = ''ArrowLeft'' \<and> fst (dir_a s2) = 0
                   then s2\<lparr>nextDir_a := (- 1, 0), allowInput_a := False\<rparr> else s2);
             s4 = (if key = ''ArrowRight'' \<and> fst (dir_a s3) = 0
                   then s3\<lparr>nextDir_a := (1, 0), allowInput_a := False\<rparr> else s3);
             s5 = (if key = ''p'' \<or> key = ''P'' then togglePause_a s4 else s4)
         in if key = '' '' then (if \<not> running_a s5 then startWithCountdown s5 else s5) else s5))"

text \<open>The three-second maintenance interval at the end of the script.\<close>

definition maintenance :: "random \<Rightarrow> app \<Rightarrow> app" where
  "maintenance rnd s =
     (let s1 = (if apple_a s = None then spawnApple rnd s else s)
      in if length (obstacles_a s1) > 12
         then s1\<lparr>obstacles_a := drop (length (obstacles_a s1) - 12) (obstacles_a s1)\<rparr>
         else s1)"

subsection \<open>Notions used to state properties of \<^verbatim>\<open>app.js\<close>\<close>

text \<open>The four directions the input handlers can set.\<close>

definition isUnit :: "pos \<Rightarrow> bool" where
  "isUnit d \<longleftrightarrow> d \<in> set [(1, 0), (- 1, 0), (0, 1), (0, - 1)]"

definition inside :: "pos \<Rightarrow> bool" where
  "inside c \<longleftrightarrow> 0 \<le> fst c \<and> fst c < width \<and> 0 \<le> snd c \<and> snd c < rows_a"

text \<open>The cell \<open>tick\<close> computes for the moved head.\<close>

definition nextHead :: "app \<Rightarrow> pos" where
  "nextHead s =
     (case snake_a s of
        [] \<Rightarrow> (0, 0)
      | h # _ \<Rightarrow> (js_rem (fst h + fst (nextDir_a s) + width) width,
                   js_rem (snd h + snd (nextDir_a s) + rows_a) rows_a))"

text \<open>The cell \<open>spawnApple\<close> draws when \<open>k\<close> calls of the random source came before.\<close>

definition candidate_a :: "random \<Rightarrow> nat \<Rightarrow> pos" where
  "candidate_a rnd k = (randInt 1 (width - 2) (rnd k), randInt 1 (rows_a - 2) (rnd (k + 1)))"

definition occupied_a :: "app \<Rightarrow> pos \<Rightarrow> bool" where
  "occupied_a s p \<longleftrightarrow>
     list_ex (\<lambda>seg. posEq seg p) (snake_a s) \<or> list_ex (\<lambda>ob. posEq ob p) (obstacles_a s)"

text \<open>A direction input: a key press, or a touch button or swipe (\<open>applyDirection\<close>).\<close>

datatype input = Key string | Touch string

fun input_a :: "input \<Rightarrow> app \<Rightarrow> app" where
  "input_a (Key key) s = keydown_a key s"
| "input_a (Touch dirStr) s = applyDirection dirStr s"

text \<open>
  The state the script's declarations set up, and the states the page can reach from
  the \<open>resetGame()\<close> call that ends the script: by inputs, the pause and start buttons,
  the three intervals, a reset (the reset button, the name dialog after a game over, the
  error handler) and a change of difficulty.
\<close>

definition initial_a :: "localStorage \<Rightarrow> string \<Rightarrow> app" where
  "initial_a st d =
     \<lparr>snake_a = [], dir_a = (1, 0), nextDir_a = (1, 0), apple_a = None, obstacles_a = [],
      score_a = 0, highScore_a = loadHighScore_a st, gameInterval_a = False,
      running_a = False, paused_a = False, countdownTimer_a = False, countdownValue_a = 0,
      allowInput_a = True, difficulty_a = d, localStorage_a = st, calls_a = 0\<rparr>"

inductive reachable_a :: "random \<Rightarrow> app \<Rightarrow> bool" for rnd :: random where
  boot: "reachable_a rnd (resetGame_a rnd (initial_a st d))"
| input: "reachable_a rnd s \<Longrightarrow> reachable_a rnd (input_a ev s)"
| pause: "reachable_a rnd s \<Longrightarrow> reachable_a rnd (togglePause_a s)"
| start: "reachable_a rnd s \<Longrightarrow> reachable_a rnd (startWithCountdown s)"
| countdown: "reachable_a rnd s \<Longrightarrow> reachable_a rnd (countdownFire s)"
| interval: "reachable_a rnd s \<Longrightarrow> intervalFire rnd s = Inr s' \<Longrightarrow> reachable_a rnd s'"
| maintain: "reachable_a rnd s \<Longrightarrow> reachable_a rnd (maintenance rnd s)"
| reset: "reachable_a rnd s \<Longrightarrow> reachable_a rnd (resetGame_a rnd s)"
| difficulty: "reachable_a rnd s \<Longrightarrow> reachable_a rnd (s\<lparr>difficulty_a := d\<rparr>)"

text \<open>
  What every reachable state satisfies: a non-empty snake whose head is on the grid, unit
  directions, and a tick interval that exists exactly while the game runs.
\<close>

definition inv_a :: "app \<Rightarrow> bool" where
  "inv_a s \<longleftrightarrow> snake_a s \<noteq> [] \<and> inside (hd (snake_a s)) \<and> isUnit (dir_a s) \<and> isUnit (nextDir_a s)
     \<and> gameInterval_a s = running_a s"

section \<open>\<^verbatim>\<open>game.js\<close> of part_001: cell-quantised movement inside walls\<close>

record 'a food =
  food_x :: 'a
  food_y :: 'a
  food_color :: string
  food_points :: int

type_synonym foodType = "string \<times> int"

definition STORAGE_KEY :: string where
  "STORAGE_KEY = ''snakeHighScore_v1''"

definition baseSpeedCellsPerSec :: real where
  "baseSpeedCellsPerSec = 6"

definition FOOD_TYPES :: "foodType list" where
  "FOOD_TYPES = [(''#ff4d4d'', 1), (''#ffd24d'', 3), (''#4da6ff'', 5)]"

definition FOOD_WEIGHTS :: "real list" where
  "FOOD_WEIGHTS = [7 / 10, 22 / 100, 8 / 100]"

record classic =
  cellSize_c :: int
  cols_c :: int
  rows_c :: int
  speedMultiplier_c :: real
  head_c :: pos
  headPx_c :: "real \<times> real"
  dir_c :: pos
  pendingDir_c :: "pos option"
  snake_c :: "pos list"
  snakeLength_c :: int
  food_c :: "int food option"
  score_c :: int
  highScore_c :: int
  isRunning_c :: bool
  isGameOver_c :: bool
  lastTime_c :: real
  accumulator_c :: real
  moveInterval_c :: real
  headPrevCell_c :: pos
  localStorage_c :: localStorage
  calls_c :: nat

text \<open>
  \<^verbatim>\<open>let highScore = parseInt(localStorage.getItem(STORAGE_KEY) || '0', 10) || 0;\<close>
  The last \<^verbatim>\<open>|| 0\<close> replaces \<open>NaN\<close> (and 0) by 0.
\<close>

definition loadHighScore_c :: "localStorage \<Rightarrow> int" where
  "loadHighScore_c st =
     (case parseInt (getItem_or st STORAGE_KEY ''0'') of NaN \<Rightarrow> 0 | Num n \<Rightarrow> n)"

text \<open>\<open>pickFoodType\<close>: the loop over the weights, then the fall-back to the first type.\<close>

fun pickFoodType_for :: "real \<Rightarrow> real \<Rightarrow> (real \<times> foodType) list \<Rightarrow> foodType" where
  "pickFoodType_for r acc [] = FOOD_TYPES ! 0"
| "pickFoodType_for r acc ((w, t) # rest) =
     (let acc' = acc + w in if r \<le> acc' then t else pickFoodType_for r acc' rest)"

definition pickFoodType :: "real \<Rightarrow> foodType" where
  "pickFoodType r = pickFoodType_for r 0 (zip FOOD_WEIGHTS FOOD_TYPES)"

text \<open>
  \<open>spawnFood\<close> of this script: the loop \<^verbatim>\<open>while (attempts < 200)\<close>, and after it the
  fall-back that places the food at cell (0, 0) without looking at the snake.
\<close>

function spawnFood_while :: "random \<Rightarrow> nat \<Rightarrow> classic \<Rightarrow> classic" where
  "spawnFood_while rnd attempts s =
     (if attempts < 200 then
        (let fx = \<lfloor>rnd (calls_c s) * of_int (cols_c s)\<rfloor>;
             fy = \<lfloor>rnd (calls_c s + 1) * of_int (rows_c s)\<rfloor>;
             s' = s\<lparr>calls_c := calls_c s + 2\<rparr>
         in if \<not> list_ex (\<lambda>seg. fst seg = fx \<and> snd seg = fy) (snake_c s')
               \<and> \<not> (fst (head_c s') = fx \<and> snd (head_c s') = fy)
            then (let type = pickFoodType (rnd (calls_c s'))
                  in s'\<lparr>food_c := Some \<lparr>food_x = fx, food_y = fy,
                                         food_color = fst type, food_points = snd type\<rparr>,
                         calls_c := calls_c s' + 1\<rparr>)
            else spawnFood_while rnd (attempts + 1) s')
      else s\<lparr>food_c := Some \<lparr>food_x = 0, food_y = 0,
                              food_color = fst (FOOD_TYPES ! 0), food_points = snd (FOOD_TYPES ! 0)\<rparr>\<rparr>)"
  by pat_completeness auto
termination
  by (relation "measure (\<lambda>(rnd, attempts, s). 200 - attempts)") auto

declare spawnFood_while.simps [simp del]

definition spawnFood_c :: "random \<Rightarrow> classic \<Rightarrow> classic" where
  "spawnFood_c rnd s = spawnFood_while rnd 0 s"

definition initGame :: "random \<Rightarrow> classic \<Rightarrow> classic" where
  "initGame rnd s =
     (let hx = cols_c s div 3; hy = rows_c s div 2
      in spawnFood_c rnd
           (s\<lparr>head_c := (hx, hy),
              headPx_c := (of_int (hx * cellSize_c s), of_int (hy * cellSize_c s)),
              dir_c := (1, 0), pendingDir_c := None,
              snake_c := map (\<lambda>i. (hx - int i - 1, hy)) [0..<5],
              snakeLength_c := 5, score_c := 0, isRunning_c := False, isGameOver_c := False,
              lastTime_c := 0, accumulator_c := 0\<rparr>))"

definition setDirection_c :: "int \<Rightarrow> int \<Rightarrow> classic \<Rightarrow> classic" where
  "setDirection_c nx ny s =
     (if isGameOver_c s then s
      else if \<not> isRunning_c s then s
      else if nx = - fst (dir_c s) \<and> ny = - snd (dir_c s) then s
      else s\<lparr>pendingDir_c := Some (nx, ny)\<rparr>)"

definition startGame_c :: "random \<Rightarrow> real \<Rightarrow> classic \<Rightarrow> classic" where
  "startGame_c rnd now s =
     (let s1 = (if isGameOver_c s then initGame rnd s else s)
      in if \<not> isRunning_c s1 then s1\<lparr>isRunning_c := True, lastTime_c := now\<rparr> else s1)"

definition resetGame_c :: "random \<Rightarrow> classic \<Rightarrow> classic" where
  "resetGame_c rnd s = initGame rnd (s\<lparr>isRunning_c := False\<rparr>)"

text \<open>
  \<open>triggerGameOver\<close>: the only place of this script that compares the score with the high
  score. The write to the storage is taken to succeed (the source catches a failed write
  and goes on).
\<close>

definition triggerGameOver :: "classic \<Rightarrow> classic" where
  "triggerGameOver s =
     (let s1 = s\<lparr>isRunning_c := False, isGameOver_c := True\<rparr>
      in if score_c s1 > highScore_c s1
         then s1\<lparr>highScore_c := score_c s1,
                 localStorage_c := setItem (localStorage_c s1) STORAGE_KEY (String_js (score_c s1))\<rparr>
         else s1)"

text \<open>
  \<^verbatim>\<open>while (xs.length > n) xs.pop();\<close> The test \<open>xs \<noteq> []\<close> is implied by the loop's
  condition whenever \<open>n\<close> is not negative, which holds at both uses (the snake length
  starts at 5 and only grows; the other bound is at least 3).
\<close>

function pop_while :: "int \<Rightarrow> 'a list \<Rightarrow> 'a list" where
  "pop_while n xs = (if int (length xs) > n \<and> xs \<noteq> [] then pop_while n (butlast xs) else xs)"
  by pat_completeness auto
termination
  by (relation "measure (\<lambda>(n, xs). length xs)") auto

declare pop_while.simps [simp del]

text \<open>
  \<open>update\<close> of this script, in four parts; \<open>dt\<close> is in seconds. First the pending
  direction is consumed (a reversal is dropped), then the head's pixel position advances.
\<close>

definition consumePending_c :: "classic \<Rightarrow> classic" where
  "consumePending_c s0 =
     (case pendingDir_c s0 of
        None \<Rightarrow> s0
      | Some pd \<Rightarrow>
          (if \<not> (fst pd = - fst (dir_c s0) \<and> snd pd = - snd (dir_c s0))
           then s0\<lparr>dir_c := pd\<rparr> else s0)\<lparr>pendingDir_c := None\<rparr>)"

definition advance_c :: "real \<Rightarrow> classic \<Rightarrow> classic" where
  "advance_c dt s1 =
     (let speed = baseSpeedCellsPerSec * speedMultiplier_c s1 * of_int (cellSize_c s1)
      in s1\<lparr>headPx_c := (fst (headPx_c s1) + of_int (fst (dir_c s1)) * speed * dt,
                            snd (headPx_c s1) + of_int (snd (dir_c s1)) * speed * dt)\<rparr>)"

text \<open>The cell the head's pixel position rounds to.\<close>

definition cellOf :: "classic \<Rightarrow> pos" where
  "cellOf s2 = (Math_round (fst (headPx_c s2) / of_int (cellSize_c s2)),
                Math_round (snd (headPx_c s2) / of_int (cellSize_c s2)))"

text \<open>The block \<^verbatim>\<open>// Eating food?\<close>, taken when the head's cell is the food's.\<close>

definition eatFood_c :: "random \<Rightarrow> int food \<Rightarrow> classic \<Rightarrow> classic" where
  "eatFood_c rnd f s4 =
     (let sa = s4\<lparr>score_c := score_c s4 + food_points f\<rparr>;
          sb = sa\<lparr>snakeLength_c := snakeLength_c sa + max 1 (food_points f)\<rparr>;
          sc = sb\<lparr>speedMultiplier_c := 1 + min 1 (of_int (score_c sb) / 50)\<rparr>;
          sd = sc\<lparr>moveInterval_c := 1000 / (baseSpeedCellsPerSec * speedMultiplier_c sc)\<rparr>
      in spawnFood_c rnd sd)"

text \<open>
  What \<open>update\<close> does once the head has entered a new cell: walls first, then the whole
  of \<open>snake\<close> (the tail included), and only then the food.
\<close>

definition enterCell :: "random \<Rightarrow> pos \<Rightarrow> classic \<Rightarrow> classic" where
  "enterCell rnd newCell s2 =
     (let s3 = s2\<lparr>headPrevCell_c := newCell, head_c := newCell\<rparr>
      in if fst (head_c s3) < 0 \<or> fst (head_c s3) \<ge> cols_c s3
            \<or> snd (head_c s3) < 0 \<or> snd (head_c s3) \<ge> rows_c s3
         then triggerGameOver s3
         else if list_ex (\<lambda>seg. fst seg = fst (head_c s3) \<and> snd seg = snd (head_c s3)) (snake_c s3)
         then triggerGameOver s3
         else
           (let s4 = s3\<lparr>snake_c := head_c s3 # snake_c s3\<rparr>;
                s5 = (case food_c s4 of
                        None \<Rightarrow> s4
                      | Some f \<Rightarrow>
                          if fst (head_c s4) = food_x f \<and> snd (head_c s4) = food_y f
                          then eatFood_c rnd f s4 else s4)
            in s5\<lparr>snake_c := pop_while (snakeLength_c s5) (snake_c s5)\<rparr>))"

definition update_c :: "real \<Rightarrow> random \<Rightarrow> classic \<Rightarrow> classic" where
  "update_c dt rnd s0 =
     (if isGameOver_c s0 then s0
      else
        (let s2 = advance_c dt (consumePending_c s0);
             newCell = cellOf s2
         in if fst newCell \<noteq> fst (headPrevCell_c s2) \<or> snd newCell \<noteq> snd (headPrevCell_c s2)
            then enterCell rnd newCell s2
            else s2))"

subsection \<open>Notions used to state properties of part_001\<close>

text \<open>The cell \<open>spawnFood\<close> draws when \<open>k\<close> calls of the random source came before.\<close>

definition candidate_c :: "random \<Rightarrow> classic \<Rightarrow> nat \<Rightarrow> pos" where
  "candidate_c rnd s k = (\<lfloor>rnd k * of_int (cols_c s)\<rfloor>, \<lfloor>rnd (k + 1) * of_int (rows_c s)\<rfloor>)"

definition occupied_c :: "classic \<Rightarrow> pos \<Rightarrow> bool" where
  "occupied_c s p \<longleftrightarrow>
     list_ex (\<lambda>seg. fst seg = fst p \<and> snd seg = snd p) (snake_c s)
     \<or> (fst (head_c s) = fst p \<and> snd (head_c s) = snd p)"

text \<open>The food of the fall-back after the loop, and the food an accepted draw makes.\<close>

definition fallbackFood :: "int food" where
  "fallbackFood = \<lparr>food_x = 0, food_y = 0,
                   food_color = fst (FOOD_TYPES ! 0), food_points = snd (FOOD_TYPES ! 0)\<rparr>"

definition drawnFood :: "random \<Rightarrow> classic \<Rightarrow> nat \<Rightarrow> int food" where
  "drawnFood rnd s k =
     \<lparr>food_x = fst (candidate_c rnd s k), food_y = snd (candidate_c rnd s k),
      food_color = fst (pickFoodType (rnd (k + 2))), food_points = snd (pickFoodType (rnd (k + 2)))\<rparr>"

text \<open>The cell \<open>update\<close> finds the head in, and the wall test on a cell.\<close>

definition newCell_c :: "real \<Rightarrow> classic \<Rightarrow> pos" where
  "newCell_c dt s = cellOf (advance_c dt (consumePending_c s))"

definition outside_c :: "classic \<Rightarrow> pos \<Rightarrow> bool" where
  "outside_c s p \<longleftrightarrow> fst p < 0 \<or> fst p \<ge> cols_c s \<or> snd p < 0 \<or> snd p \<ge> rows_c s"

section \<open>\<^verbatim>\<open>src/game.js\<close>: smooth movement in canvas pixels\<close>

definition cellSize_g :: real where
  "cellSize_g = 22"

definition initialLength :: int where
  "initialLength = 5"

definition speed_g :: real where
  "speed_g = 160"

definition localStorageKey :: string where
  "localStorageKey = ''snakeHighScore_v1''"

definition foodTypes :: "foodType list" where
  "foodTypes = [(''#ff4d4d'', 1), (''#4caf50'', 3), (''#2196f3'', 5), (''#f0ad4e'', 10)]"

definition collisionThreshold :: real where
  "collisionThreshold = 14"

record game =
  canvasWidth :: real
  canvasHeight :: real
  lastTimestamp :: real
  running_g :: bool
  paused_g :: bool
  gameOver_g :: bool
  score_g :: int
  highScore_g :: jsnum
  head_g :: "real \<times> real"
  dir_g :: pos
  length_g :: int
  segments_g :: "(real \<times> real) list"
  food_g :: "real food option"
  pendingDir_g :: "pos option"
  localStorage_g :: localStorage
  calls_g :: nat

definition distance :: "real \<times> real \<Rightarrow> real \<times> real \<Rightarrow> real" where
  "distance a b = sqrt ((fst a - fst b) * (fst a - fst b) + (snd a - snd b) * (snd a - snd b))"

text \<open>
  \<^verbatim>\<open>highScore = parseInt(localStorage.getItem(CONFIG.localStorageKey) || '0', 10);\<close>
  as \<open>init\<close> and \<open>resetGameState\<close> have it, with no guard against \<open>NaN\<close>.
\<close>

definition loadHighScore_g :: "localStorage \<Rightarrow> jsnum" where
  "loadHighScore_g st = parseInt (getItem_or st localStorageKey ''0'')"

text \<open>
  \<open>spawnFood\<close> of this script calls itself until a draw is accepted; there is no attempt
  counter. \<open>fuel\<close> is the depth the call stack still allows: at depth 0 the engine
  throws a \<open>RangeError\<close>. An index outside \<open>foodTypes\<close> reads \<open>undefined\<close>, whose
  \<open>color\<close> throws a \<open>TypeError\<close>.
\<close>

fun spawnFood_g :: "random \<Rightarrow> nat \<Rightarrow> game \<Rightarrow> error + game" where
  "spawnFood_g rnd 0 s = Inl RangeError"
| "spawnFood_g rnd (Suc fuel) s =
     (let margin = cellSize_g;
          cols = \<lfloor>(canvasWidth s - margin * 2) / cellSize_g\<rfloor>;
          rows = \<lfloor>(canvasHeight s - margin * 2) / cellSize_g\<rfloor>;
          fx = margin + of_int (randInt 0 (cols - 1) (rnd (calls_g s))) * cellSize_g + cellSize_g / 2;
          fy = margin + of_int (randInt 0 (rows - 1) (rnd (calls_g s + 1))) * cellSize_g + cellSize_g / 2;
          i = randInt 0 (int (length foodTypes) - 1) (rnd (calls_g s + 2))
      in if 0 \<le> i \<and> i < int (length foodTypes) then
           (let type = foodTypes ! nat i;
                s' = s\<lparr>food_g := Some \<lparr>food_x = fx, food_y = fy,
                                       food_color = fst type, food_points = snd type\<rparr>,
                       calls_g := calls_g s + 3\<rparr>
            in if list_ex (\<lambda>sg. distance sg (fx, fy) < cellSize_g * (9 / 10)) (segments_g s')
               then spawnFood_g rnd fuel s'
               else Inr s')
         else Inl TypeError)"

definition resetGameState :: "random \<Rightarrow> nat \<Rightarrow> game \<Rightarrow> error + game" where
  "resetGameState rnd fuel s =
     (let hx = canvasWidth s / 2; hy = canvasHeight s / 2;
          s1 = s\<lparr>score_g := 0, highScore_g := loadHighScore_g (localStorage_g s),
                 length_g := initialLength, head_g := (hx, hy), dir_g := (1, 0),
                 segments_g := map (\<lambda>i. (hx - of_nat i * cellSize_g, hy)) [0..<nat initialLength]\<rparr>
      in case spawnFood_g rnd fuel s1 of
           Inl e \<Rightarrow> Inl e
         | Inr s2 \<Rightarrow> Inr (s2\<lparr>gameOver_g := False, paused_g := True, running_g := False,
                               lastTimestamp := 0\<rparr>))"

definition setDirection_g :: "int \<Rightarrow> int \<Rightarrow> game \<Rightarrow> game" where
  "setDirection_g dx dy s =
     (if dx = - fst (dir_g s) \<and> dy = - snd (dir_g s) then s
      else s\<lparr>pendingDir_g := Some (dx, dy)\<rparr>)"

definition togglePause_g :: "game \<Rightarrow> game" where
  "togglePause_g s =
     (if gameOver_g s then s
      else (let s1 = s\<lparr>paused_g := \<not> paused_g s\<rparr>
            in if \<not> paused_g s1 then s1\<lparr>lastTimestamp := 0\<rparr> else s1))"

definition startGame_g :: "random \<Rightarrow> nat \<Rightarrow> game \<Rightarrow> error + game" where
  "startGame_g rnd fuel s =
     (case (if gameOver_g s then resetGameState rnd fuel s else Inr s) of
        Inl e \<Rightarrow> Inl e
      | Inr s1 \<Rightarrow> Inr (s1\<lparr>paused_g := False, running_g := True, lastTimestamp := 0\<rparr>))"

definition stopGame :: "game \<Rightarrow> game" where
  "stopGame s = s\<lparr>running_g := False, paused_g := True\<rparr>"

definition endGame :: "game \<Rightarrow> game" where
  "endGame s =
     (let s1 = s\<lparr>gameOver_g := True, running_g := False, paused_g := True\<rparr>
      in if gt (score_g s1) (highScore_g s1)
         then s1\<lparr>highScore_g := Num (score_g s1),
                 localStorage_g := setItem (localStorage_g s1) localStorageKey (String_js (score_g s1))\<rparr>
         else s1)"

text \<open>The first statement of \<open>update\<close>: the pending direction, if any, becomes the direction.\<close>

definition applyPending :: "game \<Rightarrow> game" where
  "applyPending s =
     (case pendingDir_g s of None \<Rightarrow> s | Some pd \<Rightarrow> s\<lparr>dir_g := pd, pendingDir_g := None\<rparr>)"

text \<open>The block \<^verbatim>\<open>// Collision with food\<close> of \<open>update\<close>, taken when the head is on the food.\<close>

definition eat :: "random \<Rightarrow> nat \<Rightarrow> real food \<Rightarrow> game \<Rightarrow> error + game" where
  "eat rnd fuel f s =
     (let s1 = s\<lparr>score_g := score_g s + food_points f\<rparr>;
          s2 = s1\<lparr>length_g := length_g s1 + max 1 (food_points f)\<rparr>
      in case spawnFood_g rnd fuel s2 of
           Inl e \<Rightarrow> Inl e
         | Inr s3 \<Rightarrow>
             Inr (if gt (score_g s3) (highScore_g s3)
                  then s3\<lparr>highScore_g := Num (score_g s3),
                          localStorage_g :=
                            setItem (localStorage_g s3) localStorageKey (String_js (score_g s3))\<rparr>
                  else s3))"

text \<open>
  \<open>update\<close> of this script, in the order of its statements. First the direction, the head,
  the sampled segments and their trimming.
\<close>

definition moveHead :: "real \<Rightarrow> game \<Rightarrow> game" where
  "moveHead dt s0 =
     (let s1 = applyPending s0;
          dist = speed_g * dt;
          s2 = s1\<lparr>head_g := (fst (head_g s1) + of_int (fst (dir_g s1)) * dist,
                               snd (head_g s1) + of_int (snd (dir_g s1)) * dist)\<rparr>;
          last = (case segments_g s2 of [] \<Rightarrow> head_g s2 | l # _ \<Rightarrow> l);
          d = distance last (head_g s2);
          s3 = (if d \<ge> cellSize_g * (85 / 100)
                then s2\<lparr>segments_g := head_g s2 # segments_g s2\<rparr> else s2);
          maxSegments = max 3 (length_g s3 + 2)
      in s3\<lparr>segments_g := pop_while maxSegments (segments_g s3)\<rparr>)"

text \<open>The blocks \<^verbatim>\<open>// Wall collision\<close> and \<^verbatim>\<open>// Self-collision\<close>, which end \<open>update\<close>.\<close>

definition checkCollisions :: "game \<Rightarrow> game" where
  "checkCollisions s5 =
     (if fst (head_g s5) < 0 \<or> snd (head_g s5) < 0
         \<or> fst (head_g s5) > canvasWidth s5 \<or> snd (head_g s5) > canvasHeight s5
      then endGame s5
      else if list_ex (\<lambda>sg. distance (head_g s5) sg < collisionThreshold) (drop 4 (segments_g s5))
      then endGame s5
      else s5)"

text \<open>The food is looked at after the move and before the two collision tests.\<close>

definition update_g :: "real \<Rightarrow> random \<Rightarrow> nat \<Rightarrow> game \<Rightarrow> error + game" where
  "update_g dt rnd fuel s0 =
     (let s4 = moveHead dt s0
      in case (case food_g s4 of
                 None \<Rightarrow> Inr s4
               | Some f \<Rightarrow>
                   if distance (head_g s4) (food_x f, food_y f) < cellSize_g * (9 / 10)
                   then eat rnd fuel f s4 else Inr s4) of
           Inl e \<Rightarrow> Inl e
         | Inr s5 \<Rightarrow> Inr (checkCollisions s5))"

text \<open>\<open>loop\<close>, one animation frame at time \<open>timestamp\<close> (milliseconds).\<close>

definition loop_g :: "real \<Rightarrow> random \<Rightarrow> nat \<Rightarrow> game \<Rightarrow> error + game" where
  "loop_g timestamp rnd fuel s =
     (if \<not> running_g s \<or> paused_g s \<or> gameOver_g s then Inr s
      else (let s1 = (if lastTimestamp s = 0 then s\<lparr>lastTimestamp := timestamp\<rparr> else s);
                dt = min (1 / 10) ((timestamp - lastTimestamp s1) / 1000);
                s2 = s1\<lparr>lastTimestamp := timestamp\<rparr>
            in update_g dt rnd fuel s2))"

section \<open>Example states and random sources\<close>

definition rnd_half :: random where
  "rnd_half = (\<lambda>k. 1 / 2)"

definition crossing_example :: game where
  "crossing_example =
     \<lparr>canvasWidth = 800, canvasHeight = 500, lastTimestamp = 1000,
      running_g = True, paused_g = False, gameOver_g = False, score_g = 0, highScore_g = Num 0,
      head_g = (120, 110), dir_g = (- 1, 0), length_g = 5,
      segments_g = [(123, 110), (138, 122), (119, 122), (100, 122), (81, 122), (62, 122), (43, 122)],
      food_g = Some \<lparr>food_x = 99, food_y = 99, food_color = ''#ff4d4d'', food_points = 1\<rparr>,
      pendingDir_g = None, localStorage_g = Map.empty, calls_g = 0\<rparr>"

definition rnd_quarter :: random where
  "rnd_quarter = (\<lambda>k. 1 / 4)"

definition rnd_zero :: random where
  "rnd_zero = (\<lambda>k. 0)"

definition idle_example :: game where
  "idle_example =
     \<lparr>canvasWidth = 800, canvasHeight = 500, lastTimestamp = 0,
      running_g = False, paused_g = True, gameOver_g = False, score_g = 0, highScore_g = Num 0,
      head_g = (400, 250), dir_g = (1, 0), length_g = 5,
      segments_g = [(400, 250), (378, 250), (356, 250), (334, 250), (312, 250)],
      food_g = Some \<lparr>food_x = 209, food_y = 143, food_color = ''#4caf50'', food_points = 3\<rparr>,
      pendingDir_g = None, localStorage_g = Map.empty, calls_g = 3\<rparr>"

definition over_example :: game where
  "over_example =
     \<lparr>canvasWidth = 800, canvasHeight = 500, lastTimestamp = 5000,
      running_g = False, paused_g = True, gameOver_g = True, score_g = 0, highScore_g = Num 0,
      head_g = (400, - 2), dir_g = (0, - 1), length_g = 5,
      segments_g = [(400, 10), (400, 29), (400, 48), (400, 67), (400, 86), (400, 105), (400, 124)],
      food_g = Some \<lparr>food_x = 99, food_y = 99, food_color = ''#ff4d4d'', food_points = 1\<rparr>,
      pendingDir_g = None, localStorage_g = Map.empty, calls_g = 3\<rparr>"


definition boot_example :: app where
  "boot_example = resetGame_a rnd_half (initial_a Map.empty ''easy'')"

definition running_example :: app where
  "running_example = countdownFire (countdownFire (countdownFire (startWithCountdown boot_example)))"

definition loop_example :: app where
  "loop_example =
     \<lparr>snake_a = [(5, 5), (6, 5), (6, 6), (5, 6)], dir_a = (- 1, 0), nextDir_a = (0, 1),
      apple_a = Some (20, 7), obstacles_a = [], score_a = 30, highScore_a = Num 0,
      gameInterval_a = True, running_a = True, paused_a = False, countdownTimer_a = False,
      countdownValue_a = 0, allowInput_a = False, difficulty_a = ''easy'',
      localStorage_a = Map.empty, calls_a = 0\<rparr>"

definition eating_example :: app where
  "eating_example =
     \<lparr>snake_a = [(5, 5)], dir_a = (1, 0), nextDir_a = (1, 0),
      apple_a = Some (6, 5), obstacles_a = [(20, 20), (9, 17)], score_a = 0, highScore_a = Num 0,
      gameInterval_a = True, running_a = True, paused_a = False, countdownTimer_a = False,
      countdownValue_a = 0, allowInput_a = True, difficulty_a = ''easy'',
      localStorage_a = Map.empty, calls_a = 6\<rparr>"

definition tail_example :: classic where
  "tail_example =
     \<lparr>cellSize_c = 20, cols_c = 12, rows_c = 12, speedMultiplier_c = 51 / 50,
      head_c = (5, 5), headPx_c = (100, 100), dir_c = (0, 1), pendingDir_c = None,
      snake_c = [(5, 5), (6, 5), (6, 6), (6, 7), (5, 7), (5, 6)], snakeLength_c = 6,
      food_c = Some \<lparr>food_x = 9, food_y = 3, food_color = ''#ffd24d'', food_points = 3\<rparr>,
      score_c = 1, highScore_c = 0, isRunning_c = True, isGameOver_c = False,
      lastTime_c = 2000, accumulator_c = 0, moveInterval_c = 1000 / (6 * (51 / 50)),
      headPrevCell_c = (5, 5),
      localStorage_c = Map.empty, calls_c = 6\<rparr>"



definition full_snake :: "pos list" where
  "full_snake =
     concat (map (\<lambda>y. map (\<lambda>x. (if even y then int x else 11 - int x, int y)) [0..<12]) [0..<12])"

definition full_example :: classic where
  "full_example =
     \<lparr>cellSize_c = 20, cols_c = 12, rows_c = 12, speedMultiplier_c = 2,
      head_c = (0, 0), headPx_c = (0, 0), dir_c = (- 1, 0), pendingDir_c = None,
      snake_c = full_snake, snakeLength_c = 151,
      food_c = Some \<lparr>food_x = 0, food_y = 0, food_color = ''#ff4d4d'', food_points = 1\<rparr>,
      score_c = 146, highScore_c = 0, isRunning_c = True, isGameOver_c = False,
      lastTime_c = 90000, accumulator_c = 0, moveInterval_c = 1000 / 12, headPrevCell_c = (0, 0),
      localStorage_c = Map.empty, calls_c = 500\<rparr>"

section \<open>Properties of \<^verbatim>\<open>app.js\<close>: spawning, one tick, reachable states\<close>

lemma posEq_eq [simp]: "posEq a b \<longleftrightarrow> a = b"
  by (auto simp: posEq_def prod_eq_iff)

lemma list_ex_eq [simp]: "list_ex (\<lambda>v. v = p) xs \<longleftrightarrow> p \<in> set xs"
  by (auto simp: list_ex_iff)

lemma spawnApple_while_done:
  "\<not> attempts < 500 \<Longrightarrow> spawnApple_while rnd attempts s = s\<lparr>apple_a := None\<rparr>"
  by (subst spawnApple_while.simps) simp

lemma spawnApple_while_retry:
  "attempts < 500 \<Longrightarrow> occupied_a s (candidate_a rnd (calls_a s)) \<Longrightarrow>
   spawnApple_while rnd attempts s = spawnApple_while rnd (attempts + 1) (s\<lparr>calls_a := calls_a s + 2\<rparr>)"
  by (subst spawnApple_while.simps) (auto simp: Let_def occupied_a_def candidate_a_def)

lemma spawnApple_while_place:
  "attempts < 500 \<Longrightarrow> \<not> occupied_a s (candidate_a rnd (calls_a s)) \<Longrightarrow>
   spawnApple_while rnd attempts s =
     s\<lparr>calls_a := calls_a s + 2, apple_a := Some (candidate_a rnd (calls_a s))\<rparr>"
  by (subst spawnApple_while.simps) (auto simp: Let_def occupied_a_def candidate_a_def)


lemma spawnApple_while_only:
  "\<exists>a c. spawnApple_while rnd attempts s = s\<lparr>apple_a := a, calls_a := c\<rparr>
     \<and> calls_a s \<le> c \<and> c \<le> calls_a s + 2 * (500 - attempts)
     \<and> (\<forall>p. a = Some p \<longrightarrow> \<not> occupied_a s p)"
proof (induction "500 - attempts" arbitrary: attempts s)
  case 0
  then have "spawnApple_while rnd attempts s = s\<lparr>apple_a := None, calls_a := calls_a s\<rparr>"
    by (simp add: spawnApple_while_done)
  then show ?case by force
next
  case (Suc n)
  then have lt: "attempts < 500" by simp
  show ?case
  proof (cases "occupied_a s (candidate_a rnd (calls_a s))")
    case False
    then have "spawnApple_while rnd attempts s =
        s\<lparr>apple_a := Some (candidate_a rnd (calls_a s)), calls_a := calls_a s + 2\<rparr>"
      using lt by (simp add: spawnApple_while_place)
    with False lt show ?thesis by force
  next
    case True
    let ?s' = "s\<lparr>calls_a := calls_a s + 2\<rparr>"
    from Suc have "n = 500 - (attempts + 1)" by simp
    from Suc.hyps(1) [OF this, of ?s'] obtain a c where
      ac: "spawnApple_while rnd (attempts + 1) ?s' = ?s'\<lparr>apple_a := a, calls_a := c\<rparr>"
        "calls_a ?s' \<le> c" "c \<le> calls_a ?s' + 2 * (500 - (attempts + 1))"
        "\<forall>p. a = Some p \<longrightarrow> \<not> occupied_a ?s' p"
      by blast
    have "spawnApple_while rnd attempts s = s\<lparr>apple_a := a, calls_a := c\<rparr>"
      using True lt ac(1) by (simp add: spawnApple_while_retry)
    moreover have "calls_a s \<le> c" "c \<le> calls_a s + 2 * (500 - attempts)"
      using ac(2,3) lt by simp_all
    moreover have "\<forall>p. a = Some p \<longrightarrow> \<not> occupied_a s p"
      using ac(4) by (simp add: occupied_a_def)
    ultimately show ?thesis by blast
  qed
qed



lemma spawnApple_only:
  "\<exists>a c. spawnApple rnd s = s\<lparr>apple_a := a, calls_a := c\<rparr>
     \<and> calls_a s \<le> c \<and> c \<le> calls_a s + 2 * 500
     \<and> (\<forall>p. a = Some p \<longrightarrow> \<not> occupied_a s p)"
  using spawnApple_while_only [of rnd 0 s] by (simp add: spawnApple_def)

lemma spawnObstacles_while_stop:
  "\<not> (length (obstacles_a s) < count \<and> tries < 1000) \<Longrightarrow> spawnObstacles_while rnd count tries s = s"
  by (subst spawnObstacles_while.simps) auto

lemma spawnObstacles_while_step:
  "length (obstacles_a s) < count \<Longrightarrow> tries < 1000 \<Longrightarrow>
   \<exists>ob. spawnObstacles_while rnd count tries s =
     spawnObstacles_while rnd count (tries + 1) (s\<lparr>calls_a := calls_a s + 2, obstacles_a := ob\<rparr>)"
proof -
  assume a: "length (obstacles_a s) < count" "tries < 1000"
  let ?ob = "(randInt 2 (width - 3) (rnd (calls_a s)), randInt 2 (rows_a - 3) (rnd (calls_a s + 1)))"
  let ?s' = "s\<lparr>calls_a := calls_a s + 2\<rparr>"
  have "spawnObstacles_while rnd count tries s = spawnObstacles_while rnd count (tries + 1) ?s'
      \<or> spawnObstacles_while rnd count tries s =
          spawnObstacles_while rnd count (tries + 1) (?s'\<lparr>obstacles_a := obstacles_a ?s' @ [?ob]\<rparr>)"
    using a by (subst (1 3) spawnObstacles_while.simps) (simp add: Let_def)
  then show ?thesis
  proof
    assume "spawnObstacles_while rnd count tries s = spawnObstacles_while rnd count (tries + 1) ?s'"
    then have "spawnObstacles_while rnd count tries s =
      spawnObstacles_while rnd count (tries + 1) (s\<lparr>calls_a := calls_a s + 2, obstacles_a := obstacles_a s\<rparr>)"
      by simp
    then show ?thesis by blast
  next
    assume "spawnObstacles_while rnd count tries s =
          spawnObstacles_while rnd count (tries + 1) (?s'\<lparr>obstacles_a := obstacles_a ?s' @ [?ob]\<rparr>)"
    then have "spawnObstacles_while rnd count tries s =
      spawnObstacles_while rnd count (tries + 1) (s\<lparr>calls_a := calls_a s + 2, obstacles_a := obstacles_a s @ [?ob]\<rparr>)"
      by simp
    then show ?thesis by blast
  qed
qed

lemma spawnObstacles_while_only:
  "\<exists>ob c. spawnObstacles_while rnd count tries s = s\<lparr>obstacles_a := ob, calls_a := c\<rparr>"
proof (induction "1000 - tries" arbitrary: tries s)
  case 0
  then have "spawnObstacles_while rnd count tries s = s\<lparr>obstacles_a := obstacles_a s, calls_a := calls_a s\<rparr>"
    by (simp add: spawnObstacles_while_stop)
  then show ?case by blast
next
  case (Suc n)
  show ?case
  proof (cases "length (obstacles_a s) < count \<and> tries < 1000")
    case False
    then have "spawnObstacles_while rnd count tries s = s\<lparr>obstacles_a := obstacles_a s, calls_a := calls_a s\<rparr>"
      by (simp add: spawnObstacles_while_stop)
    then show ?thesis by blast
  next
    case True
    then obtain ob where ob: "spawnObstacles_while rnd count tries s =
        spawnObstacles_while rnd count (tries + 1) (s\<lparr>calls_a := calls_a s + 2, obstacles_a := ob\<rparr>)"
      using spawnObstacles_while_step by blast
    from Suc have "n = 1000 - (tries + 1)" by simp
    from Suc.hyps(1) [OF this, of "s\<lparr>calls_a := calls_a s + 2, obstacles_a := ob\<rparr>"] ob
    show ?thesis by auto
  qed
qed

lemma spawnObstaclesInitial_only:
  "\<exists>ob c. spawnObstaclesInitial rnd s = s\<lparr>obstacles_a := ob, calls_a := c\<rparr>"
  using spawnObstacles_while_only [of rnd "obstacleCount (difficulty_a s)" 0 "s\<lparr>obstacles_a := []\<rparr>"]
  by (auto simp: spawnObstaclesInitial_def)

lemma maybeAddObstacle_only:
  "\<exists>ob c. maybeAddObstacle rnd s = s\<lparr>obstacles_a := ob, calls_a := c\<rparr>"
proof -
  have "maybeAddObstacle rnd s = s\<lparr>obstacles_a := obstacles_a (maybeAddObstacle rnd s),
      calls_a := calls_a (maybeAddObstacle rnd s)\<rparr>"
    by (simp add: maybeAddObstacle_def Let_def)
  then show ?thesis by blast
qed

lemma js_rem_mod: "0 \<le> a \<Longrightarrow> js_rem a b = a mod \<bar>b\<bar>"
  by (cases "a = 0") (simp_all add: js_rem_def smod_int_alt_def)

lemma wrap_inside:
  assumes "0 \<le> v" "v < n" "d \<in> {- 1, 0, 1}"
  shows "0 \<le> js_rem (v + d + n) n \<and> js_rem (v + d + n) n < n"
proof -
  have "0 \<le> v + d + n" "0 < n" using assms by auto
  then show ?thesis by (simp add: js_rem_mod)
qed

lemma wrap_moves:
  assumes "0 \<le> v" "v < n" "d \<in> {- 1, 1}" "2 \<le> n"
  shows "js_rem (v + d + n) n \<noteq> v"
proof -
  have nn: "0 \<le> v + d + n" using assms by auto
  have "(v + d + n) mod n = (v + d) mod n" by simp
  moreover have "(v + d) mod n \<noteq> v"
  proof
    assume e: "(v + d) mod n = v"
    have "v mod n = v" using assms by simp
    with e have "(v + d) mod n = v mod n" by simp
    then have "n dvd (v + d - v)" by (simp add: mod_eq_dvd_iff)
    then have "n dvd d" by simp
    with assms show False by (auto dest: zdvd_imp_le simp: )
  qed
  ultimately show ?thesis using nn assms by (simp add: js_rem_mod)
qed

lemma enumerate_ex_pos:
  "0 < n \<Longrightarrow> list_ex (\<lambda>(idx, v). 0 < idx \<and> posEq v p) (enumerate n xs) \<longleftrightarrow> p \<in> set xs"
  by (induction xs arbitrary: n) auto

lemma some_idx_tail:
  "some_idx (\<lambda>seg idx. idx > 0 \<and> seg = p) (h # rest) \<longleftrightarrow> (p::pos) \<in> set rest"
  using enumerate_ex_pos [of "Suc 0" p rest] by (simp add: some_idx_def)


lemma gameOver_fields:
  "snake_a (gameOver s) = snake_a s" "dir_a (gameOver s) = dir_a s"
  "nextDir_a (gameOver s) = nextDir_a s" "score_a (gameOver s) = score_a s"
  "running_a (gameOver s) = False" "gameInterval_a (gameOver s) = False"
  "paused_a (gameOver s) = False" "obstacles_a (gameOver s) = obstacles_a s"
  "apple_a (gameOver s) = apple_a s"
  by (simp_all add: gameOver_def Let_def)

lemma nextHead_Cons:
  "snake_a s = h # rest \<Longrightarrow>
   nextHead s = (js_rem (fst h + fst (nextDir_a s) + width) width,
                 js_rem (snd h + snd (nextDir_a s) + rows_a) rows_a)"
  by (simp add: nextHead_def)

lemma tick_collision:
  assumes "snake_a s = h # rest"
    and "nextHead s \<in> set rest \<or> nextHead s \<in> set (obstacles_a s)"
  shows "tick rnd s = Inr (gameOver (s\<lparr>dir_a := nextDir_a s\<rparr>))"
  using assms by (auto simp: tick_def Let_def some_idx_tail nextHead_Cons)

lemma eatApple_fields:
  "snake_a (eatApple rnd s1) = snake_a s1 \<and> dir_a (eatApple rnd s1) = dir_a s1
    \<and> nextDir_a (eatApple rnd s1) = nextDir_a s1
    \<and> score_a (eatApple rnd s1) = score_a s1 + 10 \<and> highScore_a (eatApple rnd s1) = highScore_a s1
    \<and> localStorage_a (eatApple rnd s1) = localStorage_a s1 \<and> running_a (eatApple rnd s1) = running_a s1
    \<and> paused_a (eatApple rnd s1) = paused_a s1 \<and> gameInterval_a (eatApple rnd s1) = gameInterval_a s1"
proof -
  define s3 where "s3 = spawnApple rnd (s1\<lparr>score_a := score_a s1 + 10\<rparr>)"
  define s4 where "s4 = s3\<lparr>calls_a := calls_a s3 + 1\<rparr>"
  obtain a c where s3: "s3 = s1\<lparr>score_a := score_a s1 + 10\<rparr>\<lparr>apple_a := a, calls_a := c\<rparr>"
    using spawnApple_only [of rnd "s1\<lparr>score_a := score_a s1 + 10\<rparr>"] unfolding s3_def by blast
  obtain ob c' where m: "maybeAddObstacle rnd s4 = s4\<lparr>obstacles_a := ob, calls_a := c'\<rparr>"
    using maybeAddObstacle_only by blast
  have e: "eatApple rnd s1 = (if rnd (calls_a s3) < 25 / 100 then maybeAddObstacle rnd s4 else s4)"
    by (simp add: eatApple_def Let_def s3_def s4_def)
  show ?thesis
    unfolding e by (simp add: m) (simp add: s4_def s3)
qed

lemma tick_move:
  assumes "snake_a s = h # rest"
    and "nextHead s \<notin> set rest" and "nextHead s \<notin> set (obstacles_a s)"
  shows "\<exists>s'. tick rnd s = Inr s' \<and> snake_a s' \<noteq> [] \<and> hd (snake_a s') = nextHead s
    \<and> dir_a s' = nextDir_a s \<and> nextDir_a s' = nextDir_a s
    \<and> highScore_a s' = highScore_a s \<and> localStorage_a s' = localStorage_a s
    \<and> running_a s' = running_a s \<and> paused_a s' = paused_a s
    \<and> gameInterval_a s' = gameInterval_a s
    \<and> (score_a s' = score_a s \<or> score_a s' = score_a s + 10)"
  using assms eatApple_fields [of rnd "s\<lparr>dir_a := nextDir_a s, snake_a := nextHead s # h # rest\<rparr>"]
  by (simp add: tick_def Let_def some_idx_tail nextHead_Cons)


lemma isUnit_cases: "isUnit d \<Longrightarrow> d = (1, 0) \<or> d = (- 1, 0) \<or> d = (0, 1) \<or> d = (0, - 1)"
  by (auto simp: isUnit_def)

lemma nextHead_inside:
  assumes "snake_a s = h # rest" "inside h" "isUnit (nextDir_a s)"
  shows "inside (nextHead s)"
proof -
  have "fst (nextDir_a s) \<in> {- 1, 0, 1}" "snd (nextDir_a s) \<in> {- 1, 0, 1}"
    using isUnit_cases [OF assms(3)] by auto
  moreover have "0 \<le> fst h" "fst h < width" "0 \<le> snd h" "snd h < rows_a"
    using assms(2) by (simp_all add: inside_def)
  ultimately show ?thesis
    using assms(1) by (simp add: nextHead_Cons inside_def wrap_inside)
qed

lemma nextHead_moves:
  assumes "snake_a s = h # rest" "inside h" "isUnit (nextDir_a s)"
  shows "nextHead s \<noteq> h"
proof -
  have h: "0 \<le> fst h" "fst h < width" "0 \<le> snd h" "snd h < rows_a" "2 \<le> width" "2 \<le> rows_a"
    using assms(2) by (simp_all add: inside_def width_def rows_a_def)
  from isUnit_cases [OF assms(3)]
  have "fst (nextDir_a s) \<in> {- 1, 1} \<or> snd (nextDir_a s) \<in> {- 1, 1}" by auto
  then show ?thesis
  proof
    assume "fst (nextDir_a s) \<in> {- 1, 1}"
    from wrap_moves [OF h(1,2) this h(5)] show ?thesis
      using assms(1) by (auto simp: nextHead_Cons prod_eq_iff)
  next
    assume "snd (nextDir_a s) \<in> {- 1, 1}"
    from wrap_moves [OF h(3,4) this h(6)] show ?thesis
      using assms(1) by (auto simp: nextHead_Cons prod_eq_iff)
  qed
qed

lemma inv_tick:
  assumes "inv_a s"
  shows "\<exists>s'. tick rnd s = Inr s' \<and> inv_a s' \<and> inside (nextHead s)
    \<and> (running_a s \<and> running_a s' \<longrightarrow> hd (snake_a s') = nextHead s)"
proof -
  from assms obtain h rest where hr: "snake_a s = h # rest"
    by (cases "snake_a s") (auto simp: inv_a_def)
  have ih: "inside h" and un: "isUnit (nextDir_a s)" and gi: "gameInterval_a s = running_a s"
    using assms hr by (auto simp: inv_a_def)
  have ins: "inside (nextHead s)" by (rule nextHead_inside [OF hr ih un])
  show ?thesis
  proof (cases "nextHead s \<in> set rest \<or> nextHead s \<in> set (obstacles_a s)")
    case True
    have "tick rnd s = Inr (gameOver (s\<lparr>dir_a := nextDir_a s\<rparr>))"
      by (rule tick_collision [OF hr True])
    moreover have "inv_a (gameOver (s\<lparr>dir_a := nextDir_a s\<rparr>))"
      using hr ih un by (simp add: inv_a_def gameOver_fields)
    ultimately show ?thesis using ins by (simp add: gameOver_fields)
  next
    case False
    then obtain s' where s': "tick rnd s = Inr s'" "snake_a s' \<noteq> []" "hd (snake_a s') = nextHead s"
      "dir_a s' = nextDir_a s" "nextDir_a s' = nextDir_a s" "running_a s' = running_a s"
      "gameInterval_a s' = gameInterval_a s"
      using tick_move [OF hr, of rnd] by blast
    then have "inv_a s'" using ins un gi by (simp add: inv_a_def)
    with s' ins show ?thesis by simp
  qed
qed

lemma mapping_unit: "mapping dirStr = Some d \<Longrightarrow> isUnit d"
  by (auto simp: mapping_def isUnit_def split: if_splits)

lemma inv_applyDirection: "inv_a s \<Longrightarrow> inv_a (applyDirection dirStr s)"
  by (auto simp: applyDirection_def inv_a_def split: option.splits dest: mapping_unit)

lemma inv_togglePause: "inv_a s \<Longrightarrow> inv_a (togglePause_a s)"
  by (simp add: togglePause_a_def inv_a_def)

lemma inv_startWithCountdown: "inv_a s \<Longrightarrow> inv_a (startWithCountdown s)"
  by (simp add: startWithCountdown_def inv_a_def)

lemma inv_keydown: "inv_a s \<Longrightarrow> inv_a (keydown_a key s)"
  by (simp add: keydown_a_def Let_def inv_a_def togglePause_a_def startWithCountdown_def isUnit_def)

lemma inv_countdownFire: "inv_a s \<Longrightarrow> inv_a (countdownFire s)"
  by (simp add: countdownFire_def Let_def inv_a_def beginGameLoop_def)

lemma inv_maintenance: "inv_a s \<Longrightarrow> inv_a (maintenance rnd s)"
proof -
  assume i: "inv_a s"
  obtain a c where "spawnApple rnd s = s\<lparr>apple_a := a, calls_a := c\<rparr>"
    using spawnApple_only by blast
  with i show ?thesis by (simp add: maintenance_def Let_def inv_a_def)
qed

lemma resetGame_a_fields:
  "snake_a (resetGame_a rnd s) = [(width div 2, rows_a div 2)] \<and> dir_a (resetGame_a rnd s) = (1, 0)
   \<and> nextDir_a (resetGame_a rnd s) = (1, 0) \<and> score_a (resetGame_a rnd s) = 0
   \<and> running_a (resetGame_a rnd s) = False \<and> paused_a (resetGame_a rnd s) = False
   \<and> gameInterval_a (resetGame_a rnd s) = False \<and> allowInput_a (resetGame_a rnd s) = True
   \<and> highScore_a (resetGame_a rnd s) = highScore_a s \<and> localStorage_a (resetGame_a rnd s) = localStorage_a s
   \<and> countdownTimer_a (resetGame_a rnd s) = countdownTimer_a s
   \<and> countdownValue_a (resetGame_a rnd s) = countdownValue_a s"
proof -
  define s0 where "s0 = s\<lparr>snake_a := [(width div 2, rows_a div 2)], dir_a := (1, 0), nextDir_a := (1, 0),
          apple_a := None, obstacles_a := [], score_a := 0, allowInput_a := True,
          running_a := False, paused_a := False, gameInterval_a := False\<rparr>"
  obtain a c where a: "spawnApple rnd s0 = s0\<lparr>apple_a := a, calls_a := c\<rparr>"
    using spawnApple_only by blast
  obtain ob c' where o: "spawnObstaclesInitial rnd (spawnApple rnd s0) = (spawnApple rnd s0)\<lparr>obstacles_a := ob, calls_a := c'\<rparr>"
    using spawnObstaclesInitial_only by blast
  have "resetGame_a rnd s = spawnObstaclesInitial rnd (spawnApple rnd s0)"
    unfolding resetGame_a_def s0_def by (rule refl)
  also have "\<dots> = (spawnApple rnd s0)\<lparr>obstacles_a := ob, calls_a := c'\<rparr>"
    by (rule o)
  also have "\<dots> = s0\<lparr>apple_a := a, calls_a := c\<rparr>\<lparr>obstacles_a := ob, calls_a := c'\<rparr>"
    by (simp only: a)
  finally show ?thesis by (simp add: s0_def)
qed

lemma inv_resetGame: "inv_a (resetGame_a rnd s)"
  by (simp add: inv_a_def resetGame_a_fields inside_def isUnit_def width_def rows_a_def)

lemma reachable_inv: "reachable_a rnd s \<Longrightarrow> inv_a s"
proof (induction rule: reachable_a.induct)
  case (boot st d)
  show ?case by (rule inv_resetGame)
next
  case (input s ev)
  then show ?case by (cases ev) (simp_all add: inv_keydown inv_applyDirection)
next
  case (pause s)
  then show ?case by (simp add: inv_togglePause)
next
  case (start s)
  then show ?case by (simp add: inv_startWithCountdown)
next
  case (countdown s)
  then show ?case by (simp add: inv_countdownFire)
next
  case (interval s s')
  then show ?case using inv_tick [of s rnd] by (auto simp: intervalFire_def split: if_splits)
next
  case (maintain s)
  then show ?case by (simp add: inv_maintenance)
next
  case (reset s)
  show ?case by (rule inv_resetGame)
next
  case (difficulty s d)
  then show ?case by (simp add: inv_a_def)
qed

section \<open>Properties of part_001: spawning and one update\<close>

lemma spawnFood_while_done:
  "\<not> attempts < 200 \<Longrightarrow> spawnFood_while rnd attempts s = s\<lparr>food_c := Some fallbackFood\<rparr>"
  by (subst spawnFood_while.simps) (simp add: fallbackFood_def)

lemma spawnFood_while_retry:
  "attempts < 200 \<Longrightarrow> occupied_c s (candidate_c rnd s (calls_c s)) \<Longrightarrow>
   spawnFood_while rnd attempts s = spawnFood_while rnd (attempts + 1) (s\<lparr>calls_c := calls_c s + 2\<rparr>)"
  by (subst spawnFood_while.simps) (auto simp: Let_def occupied_c_def candidate_c_def)

lemma spawnFood_while_place:
  "attempts < 200 \<Longrightarrow> \<not> occupied_c s (candidate_c rnd s (calls_c s)) \<Longrightarrow>
   spawnFood_while rnd attempts s =
     s\<lparr>food_c := Some (drawnFood rnd s (calls_c s)), calls_c := calls_c s + 3\<rparr>"
  by (subst spawnFood_while.simps) (auto simp: Let_def occupied_c_def candidate_c_def drawnFood_def)

lemma occupied_c_calls [simp]: "occupied_c (s\<lparr>calls_c := c\<rparr>) p = occupied_c s p"
  by (simp add: occupied_c_def)

lemma candidate_c_calls [simp]: "candidate_c rnd (s\<lparr>calls_c := c\<rparr>) k = candidate_c rnd s k"
  by (simp add: candidate_c_def)

lemma spawnFood_while_only:
  "\<exists>f c. spawnFood_while rnd attempts s = s\<lparr>food_c := Some f, calls_c := c\<rparr>
     \<and> calls_c s \<le> c \<and> c \<le> calls_c s + 2 * (200 - attempts) + 1
     \<and> (\<not> occupied_c s (food_x f, food_y f)
          \<or> f = fallbackFood \<and> c = calls_c s + 2 * (200 - attempts))"
proof (induction "200 - attempts" arbitrary: attempts s)
  case 0
  then have "spawnFood_while rnd attempts s = s\<lparr>food_c := Some fallbackFood, calls_c := calls_c s\<rparr>"
    by (simp add: spawnFood_while_done)
  with 0 show ?case by force
next
  case (Suc n)
  then have lt: "attempts < 200" by simp
  show ?case
  proof (cases "occupied_c s (candidate_c rnd s (calls_c s))")
    case False
    then have "spawnFood_while rnd attempts s =
        s\<lparr>food_c := Some (drawnFood rnd s (calls_c s)), calls_c := calls_c s + 3\<rparr>"
      using lt by (simp add: spawnFood_while_place)
    moreover have "\<not> occupied_c s (food_x (drawnFood rnd s (calls_c s)), food_y (drawnFood rnd s (calls_c s)))"
      using False by (simp add: drawnFood_def)
    ultimately show ?thesis using lt by force
  next
    case True
    let ?s' = "s\<lparr>calls_c := calls_c s + 2\<rparr>"
    from Suc have "n = 200 - (attempts + 1)" by simp
    from Suc.hyps(1) [OF this, of ?s'] obtain f c where
      fc: "spawnFood_while rnd (attempts + 1) ?s' = ?s'\<lparr>food_c := Some f, calls_c := c\<rparr>"
        "calls_c ?s' \<le> c" "c \<le> calls_c ?s' + 2 * (200 - (attempts + 1)) + 1"
        "\<not> occupied_c ?s' (food_x f, food_y f)
          \<or> f = fallbackFood \<and> c = calls_c ?s' + 2 * (200 - (attempts + 1))"
      by blast
    have "spawnFood_while rnd attempts s = s\<lparr>food_c := Some f, calls_c := c\<rparr>"
      using True lt fc(1) by (simp add: spawnFood_while_retry)
    moreover have "calls_c s \<le> c" "c \<le> calls_c s + 2 * (200 - attempts) + 1"
      using fc(2,3) lt by simp_all
    moreover have "\<not> occupied_c s (food_x f, food_y f)
          \<or> f = fallbackFood \<and> c = calls_c s + 2 * (200 - attempts)"
      using fc(4) lt by auto
    ultimately show ?thesis by blast
  qed
qed

lemma spawnFood_while_exhausted:
  "\<forall>k<200 - attempts. occupied_c s (candidate_c rnd s (calls_c s + 2 * k)) \<Longrightarrow>
   spawnFood_while rnd attempts s =
     s\<lparr>food_c := Some fallbackFood, calls_c := calls_c s + 2 * (200 - attempts)\<rparr>"
proof (induction "200 - attempts" arbitrary: attempts s)
  case 0
  then show ?case by (simp add: spawnFood_while_done)
next
  case (Suc n)
  then have lt: "attempts < 200" by simp
  let ?s' = "s\<lparr>calls_c := calls_c s + 2\<rparr>"
  have occ0: "occupied_c s (candidate_c rnd s (calls_c s))"
    using Suc.prems lt by (auto dest: spec [of _ 0])
  have n: "n = 200 - (attempts + 1)" using Suc by simp
  have rest: "\<forall>k<200 - (attempts + 1). occupied_c ?s' (candidate_c rnd ?s' (calls_c ?s' + 2 * k))"
  proof (intro allI impI)
    fix k assume "k < 200 - (attempts + 1)"
    then have "Suc k < 200 - attempts" by simp
    with Suc.prems have "occupied_c s (candidate_c rnd s (calls_c s + 2 * Suc k))" by blast
    then show "occupied_c ?s' (candidate_c rnd ?s' (calls_c ?s' + 2 * k))" by simp
  qed
  have "spawnFood_while rnd attempts s = spawnFood_while rnd (attempts + 1) ?s'"
    using occ0 lt by (simp add: spawnFood_while_retry)
  also have "\<dots> = ?s'\<lparr>food_c := Some fallbackFood, calls_c := calls_c ?s' + 2 * (200 - (attempts + 1))\<rparr>"
    by (rule Suc.hyps(1) [OF n rest])
  also have "\<dots> = s\<lparr>food_c := Some fallbackFood, calls_c := calls_c s + 2 * (200 - attempts)\<rparr>"
    using lt by simp
  finally show ?case .
qed

lemma spawnFood_c_only:
  "\<exists>f c. spawnFood_c rnd s = s\<lparr>food_c := Some f, calls_c := c\<rparr>
     \<and> calls_c s \<le> c \<and> c \<le> calls_c s + 2 * 200 + 1
     \<and> (\<not> occupied_c s (food_x f, food_y f) \<or> f = fallbackFood \<and> c = calls_c s + 2 * 200)"
  using spawnFood_while_only [of rnd 0 s] by (simp add: spawnFood_c_def)

lemma spawnFood_c_exhausted:
  "\<forall>k<200. occupied_c s (candidate_c rnd s (calls_c s + 2 * k)) \<Longrightarrow>
   spawnFood_c rnd s = s\<lparr>food_c := Some fallbackFood, calls_c := calls_c s + 400\<rparr>"
  using spawnFood_while_exhausted [of 0 s rnd] by (simp add: spawnFood_c_def)

lemma list_ex_cell [simp]:
  "list_ex (\<lambda>seg. fst seg = fst p \<and> snd seg = snd p) xs \<longleftrightarrow> p \<in> set xs"
  by (auto simp: list_ex_iff prod_eq_iff)

lemma triggerGameOver_fields:
  "isGameOver_c (triggerGameOver s)" "\<not> isRunning_c (triggerGameOver s)"
  "score_c (triggerGameOver s) = score_c s" "dir_c (triggerGameOver s) = dir_c s"
  "snake_c (triggerGameOver s) = snake_c s" "pendingDir_c (triggerGameOver s) = pendingDir_c s"
  by (simp_all add: triggerGameOver_def Let_def)

lemma prelude_fields:
  "snake_c (advance_c dt (consumePending_c s)) = snake_c s"
  "headPrevCell_c (advance_c dt (consumePending_c s)) = headPrevCell_c s"
  "score_c (advance_c dt (consumePending_c s)) = score_c s"
  "highScore_c (advance_c dt (consumePending_c s)) = highScore_c s"
  "localStorage_c (advance_c dt (consumePending_c s)) = localStorage_c s"
  "isGameOver_c (advance_c dt (consumePending_c s)) = isGameOver_c s"
  "isRunning_c (advance_c dt (consumePending_c s)) = isRunning_c s"
  "cols_c (advance_c dt (consumePending_c s)) = cols_c s"
  "rows_c (advance_c dt (consumePending_c s)) = rows_c s"
  "pendingDir_c (advance_c dt (consumePending_c s)) = None"
  "dir_c (advance_c dt (consumePending_c s)) = dir_c (consumePending_c s)"
  by (simp_all add: advance_c_def consumePending_c_def Let_def split: option.splits)

lemma enterCell_hit:
  "outside_c s2 p \<or> p \<in> set (snake_c s2) \<Longrightarrow>
   enterCell rnd p s2 = triggerGameOver (s2\<lparr>headPrevCell_c := p, head_c := p\<rparr>)"
  by (auto simp: enterCell_def Let_def outside_c_def)

lemma eatFood_c_fields:
  "dir_c (eatFood_c rnd f s) = dir_c s" "pendingDir_c (eatFood_c rnd f s) = pendingDir_c s"
  "isGameOver_c (eatFood_c rnd f s) = isGameOver_c s" "isRunning_c (eatFood_c rnd f s) = isRunning_c s"
  "highScore_c (eatFood_c rnd f s) = highScore_c s" "localStorage_c (eatFood_c rnd f s) = localStorage_c s"
  "score_c (eatFood_c rnd f s) = score_c s + food_points f"
  "snake_c (eatFood_c rnd f s) = snake_c s"
proof -
  define sd where "sd = s\<lparr>score_c := score_c s + food_points f,
      snakeLength_c := snakeLength_c s + max 1 (food_points f),
      speedMultiplier_c := 1 + min 1 (of_int (score_c s + food_points f) / 50),
      moveInterval_c := 1000 / (baseSpeedCellsPerSec * (1 + min 1 (of_int (score_c s + food_points f) / 50)))\<rparr>"
  have e: "eatFood_c rnd f s = spawnFood_c rnd sd"
    by (simp add: eatFood_c_def Let_def sd_def)
  obtain g c where "spawnFood_c rnd sd = sd\<lparr>food_c := Some g, calls_c := c\<rparr>"
    using spawnFood_c_only by blast
  with e have r: "eatFood_c rnd f s = sd\<lparr>food_c := Some g, calls_c := c\<rparr>" by simp
  show "dir_c (eatFood_c rnd f s) = dir_c s" "pendingDir_c (eatFood_c rnd f s) = pendingDir_c s"
    "isGameOver_c (eatFood_c rnd f s) = isGameOver_c s" "isRunning_c (eatFood_c rnd f s) = isRunning_c s"
    "highScore_c (eatFood_c rnd f s) = highScore_c s" "localStorage_c (eatFood_c rnd f s) = localStorage_c s"
    "score_c (eatFood_c rnd f s) = score_c s + food_points f"
    "snake_c (eatFood_c rnd f s) = snake_c s"
    unfolding r by (simp_all add: sd_def)
qed

lemma enterCell_free:
  "\<not> outside_c s2 p \<Longrightarrow> p \<notin> set (snake_c s2) \<Longrightarrow>
   dir_c (enterCell rnd p s2) = dir_c s2 \<and> pendingDir_c (enterCell rnd p s2) = pendingDir_c s2
   \<and> isGameOver_c (enterCell rnd p s2) = isGameOver_c s2
   \<and> isRunning_c (enterCell rnd p s2) = isRunning_c s2
   \<and> highScore_c (enterCell rnd p s2) = highScore_c s2
   \<and> localStorage_c (enterCell rnd p s2) = localStorage_c s2"
  by (auto simp: enterCell_def Let_def outside_c_def eatFood_c_fields split: option.splits)

lemma enterCell_dir: "dir_c (enterCell rnd p s2) = dir_c s2"
  by (cases "outside_c s2 p \<or> p \<in> set (snake_c s2)")
     (simp_all add: enterCell_hit triggerGameOver_fields enterCell_free)

lemma update_c_dir: "dir_c (update_c dt rnd s) = (if isGameOver_c s then dir_c s else dir_c (consumePending_c s))"
  by (simp add: update_c_def Let_def enterCell_dir prelude_fields)

lemma update_c_collision:
  assumes "\<not> isGameOver_c s"
    and "newCell_c dt s \<noteq> headPrevCell_c s"
    and "outside_c s (newCell_c dt s) \<or> newCell_c dt s \<in> set (snake_c s)"
  shows "update_c dt rnd s =
    triggerGameOver ((advance_c dt (consumePending_c s))\<lparr>headPrevCell_c := newCell_c dt s, head_c := newCell_c dt s\<rparr>)"
proof -
  let ?s2 = "advance_c dt (consumePending_c s)"
  have "outside_c ?s2 (newCell_c dt s) \<or> newCell_c dt s \<in> set (snake_c ?s2)"
    using assms(3) by (simp add: outside_c_def prelude_fields)
  from enterCell_hit [OF this] assms(1,2) show ?thesis
    by (auto simp: update_c_def Let_def newCell_c_def prelude_fields prod_eq_iff)
qed

lemma setDirection_c_not_running:
  "\<not> isRunning_c s \<or> isGameOver_c s \<Longrightarrow> setDirection_c nx ny s = s"
  by (auto simp: setDirection_c_def)

section \<open>Properties of \<^verbatim>\<open>src/game.js\<close>: distances, spawning, one update\<close>

lemma distance_less_iff:
  "0 \<le> t \<Longrightarrow> distance a b < t \<longleftrightarrow>
     (fst a - fst b) * (fst a - fst b) + (snd a - snd b) * (snd a - snd b) < t * t"
proof -
  assume t: "0 \<le> t"
  have "sqrt (t * t) = t" using t by simp
  then have "distance a b < t \<longleftrightarrow>
      sqrt ((fst a - fst b) * (fst a - fst b) + (snd a - snd b) * (snd a - snd b)) < sqrt (t * t)"
    by (simp add: distance_def)
  then show ?thesis by (simp only: real_sqrt_less_iff)
qed

lemma distance_ge_iff:
  "0 \<le> t \<Longrightarrow> distance a b \<ge> t \<longleftrightarrow>
     (fst a - fst b) * (fst a - fst b) + (snd a - snd b) * (snd a - snd b) \<ge> t * t"
  using distance_less_iff [of t a b] by auto

lemma distance_nonneg: "0 \<le> distance a b"
  by (simp add: distance_def)

lemma distance_times_less_iff:
  assumes "0 < k" "0 \<le> t"
  shows "distance a b * k < t \<longleftrightarrow>
     ((fst a - fst b) * (fst a - fst b) + (snd a - snd b) * (snd a - snd b)) * (k * k) < t * t"
proof -
  have "distance a b * k < t \<longleftrightarrow> distance a b < t / k"
    using assms(1) by (simp add: pos_less_divide_eq)
  also have "\<dots> \<longleftrightarrow> (fst a - fst b) * (fst a - fst b) + (snd a - snd b) * (snd a - snd b)
      < (t / k) * (t / k)"
    using assms by (intro distance_less_iff) simp
  also have "\<dots> \<longleftrightarrow> ((fst a - fst b) * (fst a - fst b) + (snd a - snd b) * (snd a - snd b)) * (k * k) < t * t"
    using assms(1) by (simp add: pos_less_divide_eq field_simps)
  finally show ?thesis .
qed

lemma distance_times_ge_iff:
  assumes "0 < k" "0 \<le> t"
  shows "t \<le> distance a b * k \<longleftrightarrow>
     t * t \<le> ((fst a - fst b) * (fst a - fst b) + (snd a - snd b) * (snd a - snd b)) * (k * k)"
  using distance_times_less_iff [OF assms, of a b] by auto

lemma String_js_1: "String_js 1 = ''1''"
  by (simp add: String_js_def digits.simps digitChar_def)

lemma spawn_after_crossing:
  "spawnFood_g rnd_half (Suc 0)
     (crossing_example\<lparr>head_g := (104, 110),
        segments_g := [(104, 110), (123, 110), (138, 122), (119, 122), (100, 122), (81, 122), (62, 122)],
        score_g := 1, length_g := 6\<rparr>)
   = Inr (crossing_example\<lparr>head_g := (104, 110),
        segments_g := [(104, 110), (123, 110), (138, 122), (119, 122), (100, 122), (81, 122), (62, 122)],
        score_g := 1, length_g := 6,
        food_g := Some \<lparr>food_x = 407, food_y = 253, food_color = ''#2196f3'', food_points = 5\<rparr>,
        calls_g := 3\<rparr>)"
  by (simp add: crossing_example_def rnd_half_def Let_def cellSize_g_def randInt_def foodTypes_def
      distance_less_iff distance_times_less_iff)

lemma crossing_update:
  "update_g (1 / 10) rnd_half 1 crossing_example =
     Inr (crossing_example\<lparr>head_g := (104, 110),
        segments_g := [(104, 110), (123, 110), (138, 122), (119, 122), (100, 122), (81, 122), (62, 122)],
        score_g := 1, length_g := 6,
        food_g := Some \<lparr>food_x = 407, food_y = 253, food_color = ''#2196f3'', food_points = 5\<rparr>,
        calls_g := 3, highScore_g := Num 1,
        localStorage_g := [localStorageKey \<mapsto> ''1''],
        gameOver_g := True, running_g := False, paused_g := True\<rparr>)"
  by (simp add: update_g_def moveHead_def checkCollisions_def applyPending_def eat_def endGame_def crossing_example_def rnd_half_def
      Let_def cellSize_g_def speed_g_def collisionThreshold_def randInt_def foodTypes_def
      pop_while.simps setItem_def String_js_1
      distance_less_iff distance_times_less_iff distance_times_ge_iff)

lemma spawnFood_g_only:
  "spawnFood_g rnd fuel s = Inr s' \<Longrightarrow>
   \<exists>f c. s' = s\<lparr>food_g := Some f, calls_g := c\<rparr>
     \<and> (\<forall>sg \<in> set (segments_g s). \<not> distance sg (food_x f, food_y f) < cellSize_g * (9 / 10))"
proof (induction fuel arbitrary: s)
  case 0
  then show ?case by simp
next
  case (Suc fuel)
  let ?cols = "\<lfloor>(canvasWidth s - cellSize_g * 2) / cellSize_g\<rfloor>"
  let ?rows = "\<lfloor>(canvasHeight s - cellSize_g * 2) / cellSize_g\<rfloor>"
  let ?fx = "cellSize_g + of_int (randInt 0 (?cols - 1) (rnd (calls_g s))) * cellSize_g + cellSize_g / 2"
  let ?fy = "cellSize_g + of_int (randInt 0 (?rows - 1) (rnd (calls_g s + 1))) * cellSize_g + cellSize_g / 2"
  let ?i = "randInt 0 (int (length foodTypes) - 1) (rnd (calls_g s + 2))"
  let ?f = "\<lparr>food_x = ?fx, food_y = ?fy, food_color = fst (foodTypes ! nat ?i),
             food_points = snd (foodTypes ! nat ?i)\<rparr>"
  let ?s' = "s\<lparr>food_g := Some ?f, calls_g := calls_g s + 3\<rparr>"
  from Suc.prems have i: "0 \<le> ?i \<and> ?i < int (length foodTypes)"
    by (auto simp: Let_def split: if_splits)
  show ?case
  proof (cases "list_ex (\<lambda>sg. distance sg (?fx, ?fy) < cellSize_g * (9 / 10)) (segments_g s)")
    case True
    with Suc.prems i have "spawnFood_g rnd fuel ?s' = Inr s'" by (simp add: Let_def)
    from Suc.IH [OF this] obtain f c where
      "s' = ?s'\<lparr>food_g := Some f, calls_g := c\<rparr>"
      "\<forall>sg \<in> set (segments_g ?s'). \<not> distance sg (food_x f, food_y f) < cellSize_g * (9 / 10)"
      by blast
    then have "s' = s\<lparr>food_g := Some f, calls_g := c\<rparr>"
      "\<forall>sg \<in> set (segments_g s). \<not> distance sg (food_x f, food_y f) < cellSize_g * (9 / 10)"
      by simp_all
    then show ?thesis by blast
  next
    case False
    with Suc.prems i have "s' = ?s'" by (simp add: Let_def)
    moreover have "\<forall>sg \<in> set (segments_g s). \<not> distance sg (food_x ?f, food_y ?f) < cellSize_g * (9 / 10)"
      using False by (simp add: list_ex_iff)
    ultimately show ?thesis by blast
  qed
qed

text \<open>Without a free draw the recursion of \<open>spawnFood\<close> of \<^verbatim>\<open>src/game.js\<close> never returns.\<close>

lemma spawnFood_g_zero_step:
  assumes "(33, 33) \<in> set (segments_g s)"
  shows "spawnFood_g rnd_zero (Suc fuel) s =
    spawnFood_g rnd_zero fuel
      (s\<lparr>food_g := Some \<lparr>food_x = 33, food_y = 33, food_color = ''#ff4d4d'', food_points = 1\<rparr>,
         calls_g := calls_g s + 3\<rparr>)"
proof -
  have "distance (33, 33) (33, 33) < 22 * (9 / 10)"
    by (simp add: distance_def)
  with assms have "list_ex (\<lambda>sg. distance sg (33, 33) < 22 * (9 / 10)) (segments_g s)"
    unfolding list_ex_iff by blast
  then show ?thesis
    by (simp add: Let_def rnd_zero_def randInt_def foodTypes_def cellSize_g_def)
qed

lemma spawnFood_g_no_bound:
  "(33, 33) \<in> set (segments_g s) \<Longrightarrow> spawnFood_g rnd_zero fuel s = Inl RangeError"
proof (induction fuel arbitrary: s)
  case 0
  show ?case by simp
next
  case (Suc fuel)
  show ?case
    by (subst spawnFood_g_zero_step [OF Suc.prems]) (rule Suc.IH, simp add: Suc.prems)
qed

lemma endGame_fields:
  "gameOver_g (endGame s)" "\<not> running_g (endGame s)" "paused_g (endGame s)"
  "score_g (endGame s) = score_g s" "dir_g (endGame s) = dir_g s"
  "pendingDir_g (endGame s) = pendingDir_g s"
  by (simp_all add: endGame_def Let_def)

lemma endGame_highScore:
  "gt (score_g s) (highScore_g s) \<Longrightarrow>
     highScore_g (endGame s) = Num (score_g s)
     \<and> localStorage_g (endGame s) localStorageKey = Some (String_js (score_g s))"
  "\<not> gt (score_g s) (highScore_g s) \<Longrightarrow>
     highScore_g (endGame s) = highScore_g s \<and> localStorage_g (endGame s) = localStorage_g s"
  by (simp_all add: endGame_def Let_def setItem_def)

lemma gt_self: "\<not> gt n (Num n)"
  by simp

lemma eat_result:
  assumes "eat rnd fuel f s = Inr s'"
  shows "score_g s' = score_g s + food_points f"
    and "dir_g s' = dir_g s" and "pendingDir_g s' = pendingDir_g s"
    and "gt (score_g s + food_points f) (highScore_g s) \<Longrightarrow>
          highScore_g s' = Num (score_g s + food_points f)
          \<and> localStorage_g s' localStorageKey = Some (String_js (score_g s + food_points f))"
    and "\<not> gt (score_g s + food_points f) (highScore_g s) \<Longrightarrow>
          highScore_g s' = highScore_g s \<and> localStorage_g s' = localStorage_g s"
proof -
  let ?s2 = "s\<lparr>score_g := score_g s + food_points f, length_g := length_g s + max 1 (food_points f)\<rparr>"
  from assms obtain s3 where s3: "spawnFood_g rnd fuel ?s2 = Inr s3"
    by (auto simp: eat_def Let_def split: sum.splits)
  then obtain g c where g: "s3 = ?s2\<lparr>food_g := Some g, calls_g := c\<rparr>"
    using spawnFood_g_only by blast
  have s': "s' = (if gt (score_g s3) (highScore_g s3)
                  then s3\<lparr>highScore_g := Num (score_g s3),
                          localStorage_g := setItem (localStorage_g s3) localStorageKey (String_js (score_g s3))\<rparr>
                  else s3)"
    using assms s3 by (simp add: eat_def Let_def)
  show "score_g s' = score_g s + food_points f" "dir_g s' = dir_g s" "pendingDir_g s' = pendingDir_g s"
    by (simp_all add: s' g)
  show "gt (score_g s + food_points f) (highScore_g s) \<Longrightarrow>
          highScore_g s' = Num (score_g s + food_points f)
          \<and> localStorage_g s' localStorageKey = Some (String_js (score_g s + food_points f))"
    by (simp add: s' g setItem_def)
  show "\<not> gt (score_g s + food_points f) (highScore_g s) \<Longrightarrow>
          highScore_g s' = highScore_g s \<and> localStorage_g s' = localStorage_g s"
    by (simp add: s' g)
qed

lemma moveHead_fields:
  "score_g (moveHead dt s) = score_g s" "highScore_g (moveHead dt s) = highScore_g s"
  "localStorage_g (moveHead dt s) = localStorage_g s" "food_g (moveHead dt s) = food_g s"
  "dir_g (moveHead dt s) = dir_g (applyPending s)" "pendingDir_g (moveHead dt s) = None"
  "gameOver_g (moveHead dt s) = gameOver_g s" "running_g (moveHead dt s) = running_g s"
  by (simp_all add: moveHead_def applyPending_def Let_def split: option.splits)

lemma checkCollisions_fields:
  "score_g (checkCollisions s) = score_g s" "dir_g (checkCollisions s) = dir_g s"
  "pendingDir_g (checkCollisions s) = pendingDir_g s"
  by (simp_all add: checkCollisions_def endGame_fields)

lemma checkCollisions_highScore:
  "\<not> gt (score_g s) (highScore_g s) \<Longrightarrow>
   highScore_g (checkCollisions s) = highScore_g s \<and> localStorage_g (checkCollisions s) = localStorage_g s"
  by (simp add: checkCollisions_def endGame_highScore)

lemma update_g_dir:
  assumes "update_g dt rnd fuel s = Inr s'"
  shows "dir_g s' = dir_g (applyPending s) \<and> pendingDir_g s' = None"
proof -
  let ?s4 = "moveHead dt s"
  from assms obtain s5 where s5: "s' = checkCollisions s5"
    and c: "s5 = ?s4 \<or> (\<exists>f. eat rnd fuel f ?s4 = Inr s5)"
    by (auto simp: update_g_def Let_def split: sum.splits option.splits if_splits)
  from c have "dir_g s5 = dir_g ?s4 \<and> pendingDir_g s5 = pendingDir_g ?s4"
    by (auto simp: eat_result)
  then show ?thesis by (simp add: s5 checkCollisions_fields moveHead_fields)
qed

text \<open>Food consumed in \<open>update\<close>: the score changes, and a new record is stored at once.\<close>

lemma update_g_highScore:
  assumes "update_g dt rnd fuel s = Inr s'" and "score_g s' \<noteq> score_g s"
    and "gt (score_g s') (highScore_g s)"
  shows "highScore_g s' = Num (score_g s')
    \<and> localStorage_g s' localStorageKey = Some (String_js (score_g s'))"
proof -
  let ?s4 = "moveHead dt s"
  from assms(1) obtain s5 where s5: "s' = checkCollisions s5"
    and c: "s5 = ?s4 \<or> (\<exists>f. eat rnd fuel f ?s4 = Inr s5)"
    by (auto simp: update_g_def Let_def split: sum.splits option.splits if_splits)
  have sc: "score_g s' = score_g s5" by (simp add: s5 checkCollisions_fields)
  with assms(2) c obtain f where f: "eat rnd fuel f ?s4 = Inr s5"
    by (auto simp: moveHead_fields)
  have e: "score_g s5 = score_g s + food_points f"
    using eat_result(1) [OF f] by (simp add: moveHead_fields)
  with assms(3) sc have "gt (score_g ?s4 + food_points f) (highScore_g ?s4)"
    by (simp add: moveHead_fields)
  from eat_result(4) [OF f this] e
  have h: "highScore_g s5 = Num (score_g s5)"
    "localStorage_g s5 localStorageKey = Some (String_js (score_g s5))"
    by (simp_all add: moveHead_fields)
  then have "\<not> gt (score_g s5) (highScore_g s5)" by simp
  from checkCollisions_highScore [OF this] h sc show ?thesis by (simp add: s5)
qed

section \<open>Properties: loading and saving the high score\<close>

lemma digit_cases: "d < 10 \<Longrightarrow> d \<in> {0, 1, 2, 3, 4, 5, 6, 7, 8, 9 :: nat}"
  by auto

lemma digitChar_props:
  assumes "d < 10"
  shows "isDigit (digitChar d)" and "digitVal (digitChar d) = d"
    and "\<not> isWhiteSpace (digitChar d)" and "digitChar d \<noteq> CHR ''-''" and "digitChar d \<noteq> CHR ''+''"
  using digit_cases [OF assms]
  by (auto simp: digitChar_def isDigit_def digitVal_def isWhiteSpace_def)

lemma digits_chars:
  "\<forall>c \<in> set (digits n). isDigit c \<and> \<not> isWhiteSpace c \<and> c \<noteq> CHR ''-'' \<and> c \<noteq> CHR ''+''"
proof (induction n rule: digits.induct)
  case (1 n)
  show ?case
  proof (cases "n < 10")
    case True
    then show ?thesis by (subst digits.simps) (simp add: digitChar_props)
  next
    case False
    have "n mod 10 < 10" by simp
    with False 1 show ?thesis by (subst digits.simps) (auto simp: digitChar_props)
  qed
qed

lemma digits_nonempty: "digits n \<noteq> []"
  by (subst digits.simps) simp

lemma digits_value: "foldl (\<lambda>a c. 10 * a + digitVal c) 0 (digits n) = n"
proof (induction n rule: digits.induct)
  case (1 n)
  show ?case
  proof (cases "n < 10")
    case True
    then show ?thesis by (subst digits.simps) (simp add: digitChar_props)
  next
    case False
    have "n mod 10 < 10" by simp
    with False 1 show ?thesis by (subst digits.simps) (simp add: digitChar_props)
  qed
qed

lemma takeWhile_digits: "takeWhile isDigit (digits n) = digits n"
  using digits_chars [of n] by (simp add: takeWhile_eq_all_conv)

lemma parseInt_digits: "parseInt (digits n) = Num (int n)"
proof -
  obtain c r where cr: "digits n = c # r"
    using digits_nonempty [of n] by (cases "digits n") auto
  have c: "\<not> isWhiteSpace c" "c \<noteq> CHR ''-''" "c \<noteq> CHR ''+''"
    using digits_chars [of n] cr by auto
  have "dropWhile isWhiteSpace (digits n) = digits n"
    using cr c by simp
  moreover have "takeWhile isDigit (c # r) = c # r"
    using takeWhile_digits [of n] cr by simp
  ultimately show ?thesis
    using c cr digits_value [of n] by (simp add: parseInt_def Let_def)
qed

lemma parseInt_String_js: "parseInt (String_js n) = Num n"
proof (cases "n < 0")
  case False
  then show ?thesis by (simp add: String_js_def parseInt_digits)
next
  case True
  have "\<not> isWhiteSpace CHR ''-''" by (simp add: isWhiteSpace_def)
  then show ?thesis
    using True digits_nonempty [of "nat (- n)"]
    by (simp add: String_js_def parseInt_def Let_def takeWhile_digits digits_value)
qed

lemma String_js_nonempty: "String_js n \<noteq> []"
  by (simp add: String_js_def digits_nonempty)

lemma getItem_or_setItem: "v \<noteq> [] \<Longrightarrow> getItem_or (setItem st key v) key dflt = v"
  by (simp add: getItem_or_def setItem_def)

lemma loadHighScore_g_roundtrip:
  "loadHighScore_g (setItem st localStorageKey (String_js n)) = Num n"
  by (simp add: loadHighScore_g_def getItem_or_setItem String_js_nonempty parseInt_String_js)

lemma loadHighScore_c_roundtrip:
  "loadHighScore_c (setItem st STORAGE_KEY (String_js n)) = n"
  by (simp add: loadHighScore_c_def getItem_or_setItem String_js_nonempty parseInt_String_js)

lemma parseInt_zero: "parseInt ''0'' = Num 0"
  by (simp add: parseInt_def isWhiteSpace_def isDigit_def digitVal_def)

lemma loadHighScore_missing:
  "st localStorageKey = None \<Longrightarrow> loadHighScore_g st = Num 0"
  "st STORAGE_KEY = None \<Longrightarrow> loadHighScore_c st = 0"
  "st ''snake_high'' = None \<Longrightarrow> loadHighScore_a st = Num 0"
  by (simp_all add: loadHighScore_g_def loadHighScore_c_def loadHighScore_a_def getItem_or_def parseInt_zero)

lemma parseInt_abc: "parseInt ''abc'' = NaN"
  by (simp add: parseInt_def isWhiteSpace_def isDigit_def)

lemma loadHighScore_c_corrupt: "loadHighScore_c [STORAGE_KEY \<mapsto> ''abc''] = 0"
  by (simp add: loadHighScore_c_def getItem_or_def parseInt_abc)

text \<open>
  Claim C6: loading the stored high score yields an integer, 0 for missing or corrupt
  data and never \<open>NaN\<close>, and a saved high score reads back as itself. The round trip and
  the default for a missing key hold in all three scripts (\<open>loadHighScore_g_roundtrip\<close>,
  \<open>loadHighScore_c_roundtrip\<close>, \<open>loadHighScore_missing\<close>), and part_001 maps corrupt
  data to 0 (\<open>loadHighScore_c_corrupt\<close>). The load of \<^verbatim>\<open>src/game.js\<close> has no such
  guard: with the non-numeric string \<^verbatim>\<open>abc\<close> stored under its key, the high score it
  loads is \<open>NaN\<close>.
\<close>

theorem loadHighScore_g_corrupt_NaN:
  "loadHighScore_g [localStorageKey \<mapsto> ''abc''] = NaN"
  by (simp add: loadHighScore_g_def getItem_or_def parseInt_abc)

section \<open>Food against collisions, inputs outside a game, the grid, the tail, pausing\<close>

lemma tick_collision_keeps_score:
  assumes "snake_a s = h # rest"
    and "nextHead s \<in> set rest \<or> nextHead s \<in> set (obstacles_a s)"
  shows "\<exists>s'. tick rnd s = Inr s' \<and> \<not> running_a s' \<and> score_a s' = score_a s"
  using tick_collision [OF assms, of rnd] by (simp add: gameOver_fields)

lemma update_c_collision_keeps_score:
  assumes "\<not> isGameOver_c s" and "newCell_c dt s \<noteq> headPrevCell_c s"
    and "outside_c s (newCell_c dt s) \<or> newCell_c dt s \<in> set (snake_c s)"
  shows "isGameOver_c (update_c dt rnd s) \<and> \<not> isRunning_c (update_c dt rnd s)
    \<and> score_c (update_c dt rnd s) = score_c s \<and> snake_c (update_c dt rnd s) = snake_c s"
  by (simp add: update_c_collision [OF assms] triggerGameOver_fields prelude_fields)

text \<open>
  Claim C1: when the moved head is on the food and also collides, the collision wins and
  the score does not change in that tick. \<open>tick\<close> of \<^verbatim>\<open>app.js\<close> and \<open>update\<close> of part_001
  test the collisions first and return (\<open>tick_collision_keeps_score\<close>,
  \<open>update_c_collision_keeps_score\<close>). \<open>update\<close> of \<^verbatim>\<open>src/game.js\<close> handles the food
  first: in \<open>crossing_example\<close> a frame of 0.1 s moves the head to (104, 110), which is
  within 19.8 px of the food at (99, 99) and within 14 px of the body segment at
  (100, 122). The update ends the game and still adds the food's point to the score, and
  stores the new high score 1.
\<close>

theorem update_g_scores_on_fatal_frame:
  "\<exists>s'. update_g (1 / 10) rnd_half 1 crossing_example = Inr s'
     \<and> running_g crossing_example \<and> \<not> gameOver_g crossing_example \<and> score_g crossing_example = 0
     \<and> gameOver_g s' \<and> \<not> running_g s' \<and> score_g s' = 1 \<and> highScore_g s' = Num 1
     \<and> localStorage_g s' localStorageKey = Some ''1''"
proof -
  define r where "r = crossing_example\<lparr>head_g := (104, 110),
        segments_g := [(104, 110), (123, 110), (138, 122), (119, 122), (100, 122), (81, 122), (62, 122)],
        score_g := 1, length_g := 6,
        food_g := Some \<lparr>food_x = 407, food_y = 253, food_color = ''#2196f3'', food_points = 5\<rparr>,
        calls_g := 3, highScore_g := Num 1,
        localStorage_g := [localStorageKey \<mapsto> ''1''],
        gameOver_g := True, running_g := False, paused_g := True\<rparr>"
  have "update_g (1 / 10) rnd_half 1 crossing_example = Inr r"
    unfolding r_def by (rule crossing_update)
  moreover have "gameOver_g r \<and> \<not> running_g r \<and> score_g r = 1 \<and> highScore_g r = Num 1
     \<and> localStorage_g r localStorageKey = Some ''1''"
    by (simp add: r_def)
  moreover have "running_g crossing_example \<and> \<not> gameOver_g crossing_example \<and> score_g crossing_example = 0"
    by (simp add: crossing_example_def)
  ultimately show ?thesis by blast
qed

lemma idle_example_after_reset:
  "resetGameState rnd_quarter 1 (idle_example\<lparr>calls_g := 0\<rparr>) = Inr idle_example"
  by (simp add: resetGameState_def idle_example_def rnd_quarter_def
      Let_def initialLength_def cellSize_g_def randInt_def foodTypes_def loadHighScore_g_def
      getItem_or_def parseInt_zero upt_conv_Cons
      distance_less_iff distance_times_less_iff)

lemma stale_pending_reverses_after_restart:
  "\<exists>s1. startGame_g rnd_quarter 1 (setDirection_g (- 1) 0 over_example) = Inr s1
     \<and> running_g s1 \<and> dir_g s1 = (1, 0) \<and> dir_g (applyPending s1) = reverse (dir_g s1)"
  by (simp add: startGame_g_def setDirection_g_def resetGameState_def over_example_def rnd_quarter_def
      Let_def initialLength_def cellSize_g_def randInt_def foodTypes_def loadHighScore_g_def
      getItem_or_def parseInt_zero applyPending_def reverse_def upt_conv_Cons
      distance_less_iff distance_times_less_iff)

text \<open>
  Claim C7: \<open>setDirection\<close> records a pending direction only while the game is running,
  and is a no-op otherwise. \<open>setDirection\<close> of part_001 has both guards
  (\<open>setDirection_c_not_running\<close>). \<open>setDirection\<close> of \<^verbatim>\<open>src/game.js\<close> has none: in
  \<open>idle_example\<close>, the state before the first start (not running, paused, not over), the
  call \<open>setDirection(0, -1)\<close> fills the pending direction. A direction recorded after a
  game over even survives \<open>resetGameState\<close> and is applied against the reset direction
  (\<open>stale_pending_reverses_after_restart\<close>).
\<close>

theorem setDirection_g_records_while_idle:
  "\<not> running_g idle_example \<and> paused_g idle_example \<and> pendingDir_g idle_example = None
   \<and> pendingDir_g (setDirection_g 0 (- 1) idle_example) = Some (0, - 1)
   \<and> setDirection_g 0 (- 1) idle_example \<noteq> idle_example"
proof -
  have p: "pendingDir_g (setDirection_g 0 (- 1) idle_example) = Some (0, - 1)"
    by (simp add: setDirection_g_def idle_example_def)
  moreover have "pendingDir_g idle_example = None" by (simp add: idle_example_def)
  ultimately have "setDirection_g 0 (- 1) idle_example \<noteq> idle_example" by auto
  with p show ?thesis by (simp add: idle_example_def)
qed

lemma running_example_facts:
  "reachable_a rnd_half running_example" "running_a running_example" "\<not> paused_a running_example"
proof -
  show "reachable_a rnd_half running_example"
    unfolding running_example_def boot_example_def
    by (intro reachable_a.countdown reachable_a.start reachable_a.boot)
  show "running_a running_example" "\<not> paused_a running_example"
    by (simp_all add: running_example_def boot_example_def countdownFire_def startWithCountdown_def
        Let_def beginGameLoop_def resetGame_a_fields)
qed

text \<open>
  Claim C8: with wrap-around, the head stays inside the grid \<open>[0, width) \<times> [0, rows)\<close>
  after every tick while running. From every reachable running state of \<^verbatim>\<open>app.js\<close> the
  tick interval returns a state whose head is on the grid; the cell computed for the moved
  head is on the grid too, and it is the new head whenever the game is still running.
\<close>

theorem tick_head_on_grid:
  assumes "reachable_a rnd s" and "running_a s" and "\<not> paused_a s"
  shows "\<exists>s'. intervalFire rnd s = Inr s' \<and> snake_a s' \<noteq> []
    \<and> 0 \<le> fst (hd (snake_a s')) \<and> fst (hd (snake_a s')) < width
    \<and> 0 \<le> snd (hd (snake_a s')) \<and> snd (hd (snake_a s')) < rows_a
    \<and> inside (nextHead s) \<and> (running_a s' \<longrightarrow> hd (snake_a s') = nextHead s)"
proof -
  have i: "inv_a s" by (rule reachable_inv [OF assms(1)])
  then obtain s' where s': "tick rnd s = Inr s'" "inv_a s'" "inside (nextHead s)"
    "running_a s \<and> running_a s' \<longrightarrow> hd (snake_a s') = nextHead s"
    using inv_tick by blast
  have "intervalFire rnd s = Inr s'"
    using i assms s'(1) by (simp add: intervalFire_def inv_a_def)
  with s' assms(2) show ?thesis by (auto simp: inv_a_def inside_def)
qed

theorem tick_head_on_grid_witness:
  "reachable_a rnd_half running_example \<and> running_a running_example \<and> \<not> paused_a running_example
   \<and> (\<exists>s'. intervalFire rnd_half running_example = Inr s' \<and> snake_a s' \<noteq> []
        \<and> 0 \<le> fst (hd (snake_a s')) \<and> fst (hd (snake_a s')) < width
        \<and> 0 \<le> snd (hd (snake_a s')) \<and> snd (hd (snake_a s')) < rows_a)"
  using tick_head_on_grid [OF running_example_facts] running_example_facts by blast

lemma tick_tail_collision:
  assumes "inv_a s" and "nextHead s = last (snake_a s)"
  shows "tick rnd s = Inr (gameOver (s\<lparr>dir_a := nextDir_a s\<rparr>))"
proof -
  from assms(1) obtain h rest where hr: "snake_a s = h # rest"
    by (cases "snake_a s") (auto simp: inv_a_def)
  have "nextHead s \<noteq> h"
    using nextHead_moves [OF hr] assms(1) hr by (simp add: inv_a_def)
  with assms(2) hr have "rest \<noteq> []" "nextHead s = last rest" by (auto split: if_splits)
  then have "nextHead s \<in> set rest" by simp
  then show ?thesis using tick_collision [OF hr] by blast
qed

lemma loop_example_inv: "inv_a loop_example"
  by (simp add: inv_a_def loop_example_def inside_def isUnit_def width_def rows_a_def)

lemma loop_example_nextHead: "nextHead loop_example = (5, 6)"
  by (simp add: nextHead_def loop_example_def js_rem_mod width_def rows_a_def)

lemma tail_example_newCell: "newCell_c (1 / 10) tail_example = (5, 6)"
  by (simp add: newCell_c_def cellOf_def advance_c_def consumePending_c_def tail_example_def
      Let_def baseSpeedCellsPerSec_def Math_round_def)

text \<open>
  Claim C10: in the grid scripts the self-collision test sees the whole body before the
  tail is removed, so a move into the cell the tail occupies ends the game. In \<^verbatim>\<open>app.js\<close>
  this holds in every state that satisfies the invariant of the reachable states
  (\<open>reachable_inv\<close>); in part_001 it holds whenever the head enters a new cell that is the
  tail's. The snake and the score are left as they were.
\<close>

theorem move_onto_tail_ends_game:
  "(inv_a a \<and> running_a a \<and> \<not> paused_a a \<and> nextHead a = last (snake_a a) \<longrightarrow>
      (\<exists>a'. intervalFire rnd a = Inr a' \<and> \<not> running_a a' \<and> snake_a a' = snake_a a
         \<and> score_a a' = score_a a))
   \<and> (\<not> isGameOver_c c \<and> snake_c c \<noteq> [] \<and> newCell_c dt c \<noteq> headPrevCell_c c
        \<and> newCell_c dt c = last (snake_c c) \<longrightarrow>
      isGameOver_c (update_c dt rnd c) \<and> \<not> isRunning_c (update_c dt rnd c)
      \<and> snake_c (update_c dt rnd c) = snake_c c \<and> score_c (update_c dt rnd c) = score_c c)"
proof (intro conjI impI)
  assume a: "inv_a a \<and> running_a a \<and> \<not> paused_a a \<and> nextHead a = last (snake_a a)"
  then have "tick rnd a = Inr (gameOver (a\<lparr>dir_a := nextDir_a a\<rparr>))"
    using tick_tail_collision by blast
  moreover have "gameInterval_a a" using a by (simp add: inv_a_def)
  ultimately show "\<exists>a'. intervalFire rnd a = Inr a' \<and> \<not> running_a a' \<and> snake_a a' = snake_a a
      \<and> score_a a' = score_a a"
    using a by (simp add: intervalFire_def gameOver_fields)
next
  assume c: "\<not> isGameOver_c c \<and> snake_c c \<noteq> [] \<and> newCell_c dt c \<noteq> headPrevCell_c c
      \<and> newCell_c dt c = last (snake_c c)"
  then have m: "newCell_c dt c \<in> set (snake_c c)" by simp
  have u: "isGameOver_c (update_c dt rnd c) \<and> \<not> isRunning_c (update_c dt rnd c)
      \<and> score_c (update_c dt rnd c) = score_c c \<and> snake_c (update_c dt rnd c) = snake_c c"
    using update_c_collision_keeps_score [of c dt rnd] c m by blast
  from u show "isGameOver_c (update_c dt rnd c)" by simp
  from u show "\<not> isRunning_c (update_c dt rnd c)" by simp
  from u show "snake_c (update_c dt rnd c) = snake_c c" by simp
  from u show "score_c (update_c dt rnd c) = score_c c" by simp
qed

theorem move_onto_tail_ends_game_witness:
  "nextHead loop_example = last (snake_a loop_example)
   \<and> (\<exists>a'. intervalFire rnd_half loop_example = Inr a' \<and> \<not> running_a a'
         \<and> snake_a a' = snake_a loop_example \<and> score_a a' = score_a loop_example)
   \<and> newCell_c (1 / 10) tail_example = last (snake_c tail_example)
   \<and> isGameOver_c (update_c (1 / 10) rnd_half tail_example)
   \<and> \<not> isRunning_c (update_c (1 / 10) rnd_half tail_example)
   \<and> snake_c (update_c (1 / 10) rnd_half tail_example) = snake_c tail_example
   \<and> score_c (update_c (1 / 10) rnd_half tail_example) = score_c tail_example"
proof -
  have a: "inv_a loop_example \<and> running_a loop_example \<and> \<not> paused_a loop_example
      \<and> nextHead loop_example = last (snake_a loop_example)"
    using loop_example_inv loop_example_nextHead by (simp add: loop_example_def)
  have c: "\<not> isGameOver_c tail_example \<and> snake_c tail_example \<noteq> []
      \<and> newCell_c (1 / 10) tail_example \<noteq> headPrevCell_c tail_example
      \<and> newCell_c (1 / 10) tail_example = last (snake_c tail_example)"
    by (simp add: tail_example_newCell) (simp add: tail_example_def)
  from move_onto_tail_ends_game [of loop_example rnd_half tail_example "1 / 10"] a c
  show ?thesis by blast
qed

text \<open>
  Claim C9: \<open>pause()\<close> and \<open>resume()\<close> are idempotent, and invalid calls are no-ops. The
  scripts have one operation, \<open>togglePause\<close>, behind the pause key and button. Called a
  second time in a row it resumes: in \<open>loop_example\<close>, a running state, the first call
  pauses and the second one leaves the game not paused.
\<close>

theorem second_togglePause_resumes:
  "running_a loop_example \<and> \<not> paused_a loop_example
   \<and> paused_a (togglePause_a loop_example)
   \<and> \<not> paused_a (togglePause_a (togglePause_a loop_example))
   \<and> togglePause_a (togglePause_a loop_example) \<noteq> togglePause_a loop_example"
proof -
  have p: "paused_a (togglePause_a loop_example)"
    "\<not> paused_a (togglePause_a (togglePause_a loop_example))"
    by (simp_all add: togglePause_a_def loop_example_def)
  then have "togglePause_a (togglePause_a loop_example) \<noteq> togglePause_a loop_example" by auto
  with p show ?thesis by (simp add: loop_example_def)
qed

text \<open>
  Claim C9 as the code has it: \<open>togglePause\<close> flips between running and paused, so two
  calls in a row give back the pause state the game had; outside a game (\<^verbatim>\<open>app.js\<close>: not
  running; \<^verbatim>\<open>src/game.js\<close>: game over) the call changes nothing.
\<close>

theorem togglePause_flips:
  "(running_a a \<longrightarrow> paused_a (togglePause_a a) = (\<not> paused_a a) \<and> togglePause_a (togglePause_a a) = a)
   \<and> (\<not> running_a a \<longrightarrow> togglePause_a a = a)
   \<and> (\<not> gameOver_g g \<longrightarrow>
        paused_g (togglePause_g g) = (\<not> paused_g g)
        \<and> paused_g (togglePause_g (togglePause_g g)) = paused_g g
        \<and> gameOver_g (togglePause_g g) = gameOver_g g \<and> running_g (togglePause_g g) = running_g g)
   \<and> (gameOver_g g \<longrightarrow> togglePause_g g = g)"
  by (simp add: togglePause_a_def togglePause_g_def Let_def)

theorem togglePause_flips_witness:
  "paused_a (togglePause_a loop_example)
   \<and> togglePause_a (togglePause_a loop_example) = loop_example
   \<and> togglePause_a boot_example = boot_example
   \<and> \<not> paused_g (togglePause_g idle_example)
   \<and> paused_g (togglePause_g (togglePause_g idle_example))
   \<and> togglePause_g over_example = over_example"
proof -
  have 1: "running_a loop_example" "\<not> paused_a loop_example" by (simp_all add: loop_example_def)
  have 2: "\<not> running_a boot_example" by (simp add: boot_example_def resetGame_a_fields)
  have 3: "\<not> gameOver_g idle_example" "paused_g idle_example" by (simp_all add: idle_example_def)
  have 4: "gameOver_g over_example" by (simp add: over_example_def)
  from togglePause_flips [of loop_example idle_example] togglePause_flips [of boot_example over_example]
    1 2 3 4
  show ?thesis by simp
qed

text \<open>A snake that covers the whole 12 x 12 grid, row after row in alternating direction.\<close>

section \<open>Spawning: the retry budget and what is left when it runs out\<close>

lemma floor_unit_scale:
  assumes "0 \<le> u" "u < 1" "0 < n"
  shows "0 \<le> \<lfloor>u * of_int n\<rfloor> \<and> \<lfloor>u * of_int n\<rfloor> < n"
proof -
  have "0 \<le> u * of_int n" using assms by simp
  moreover have "u * of_int n < of_int n" using assms by simp
  ultimately show ?thesis by (simp add: floor_less_iff)
qed

text \<open>On a grid the snake fills, every draw is rejected and the fall-back lands on it.\<close>

lemma spawnFood_c_full_grid:
  assumes rnd: "\<forall>k. 0 \<le> rnd k \<and> rnd k < 1"
    and size: "0 < cols_c s" "0 < rows_c s"
    and full: "\<forall>x y. 0 \<le> x \<and> x < cols_c s \<and> 0 \<le> y \<and> y < rows_c s \<longrightarrow> (x, y) \<in> set (snake_c s)"
  shows "food_c (spawnFood_c rnd s) = Some fallbackFood \<and> (0, 0) \<in> set (snake_c s)"
proof -
  have "\<forall>k<200. occupied_c s (candidate_c rnd s (calls_c s + 2 * k))"
  proof (intro allI impI)
    fix k
    let ?p = "candidate_c rnd s (calls_c s + 2 * k)"
    have "0 \<le> fst ?p \<and> fst ?p < cols_c s" "0 \<le> snd ?p \<and> snd ?p < rows_c s"
      using rnd size by (simp_all add: candidate_c_def floor_unit_scale)
    with full have "(fst ?p, snd ?p) \<in> set (snake_c s)" by blast
    then show "occupied_c s ?p" by (simp add: occupied_c_def)
  qed
  then have "spawnFood_c rnd s = s\<lparr>food_c := Some fallbackFood, calls_c := calls_c s + 400\<rparr>"
    by (rule spawnFood_c_exhausted)
  moreover have "(0, 0) \<in> set (snake_c s)" using full size by blast
  ultimately show ?thesis by simp
qed

lemma full_snake_covers:
  "0 \<le> x \<and> x < 12 \<and> 0 \<le> y \<and> y < 12 \<Longrightarrow> (x, y) \<in> set full_snake"
proof -
  assume a: "0 \<le> x \<and> x < 12 \<and> 0 \<le> y \<and> y < 12"
  define j where "j = nat y"
  define i where "i = (if even j then nat x else nat (11 - x))"
  have j: "j < 12" "int j = y" using a unfolding j_def by linarith+
  have i: "i < 12" "(if even j then int i else 11 - int i) = x"
    using a unfolding i_def by (auto split: if_splits)
  have "(x, y) \<in> (\<lambda>x. (if even j then int x else 11 - int x, int j)) ` {0..<12}"
    using i j by (intro image_eqI [of _ _ i]) auto
  then show ?thesis
    unfolding full_snake_def using j(1) by (auto simp: image_iff)
qed

text \<open>
  Claim C4: food that is present right after a spawn is on no snake segment and no
  obstacle. \<open>spawnApple\<close> of \<^verbatim>\<open>app.js\<close> and \<open>spawnFood\<close> of \<^verbatim>\<open>src/game.js\<close> only ever
  keep a draw that passed the test (\<open>spawnApple_only\<close>, \<open>spawnFood_g_only\<close>), and so do the
  200 attempts of \<open>spawnFood\<close> of part_001 (\<open>spawnFood_c_only\<close>). Its fall-back after the
  loop, though, puts the food at cell (0, 0) without any test. In \<open>full_example\<close> the snake
  covers the whole 12 x 12 grid, every draw is rejected whatever the random source returns
  (\<open>spawnFood_c_full_grid\<close>), and the food comes to lie on the snake.
\<close>

theorem fallback_food_on_snake:
  "\<exists>f. food_c (spawnFood_c rnd_half full_example) = Some f
     \<and> (food_x f, food_y f) \<in> set (snake_c full_example)
     \<and> (food_x f, food_y f) = (0, 0)"
proof -
  have "\<forall>k. 0 \<le> rnd_half k \<and> rnd_half k < 1" by (simp add: rnd_half_def)
  moreover have "0 < cols_c full_example" "0 < rows_c full_example"
    by (simp_all add: full_example_def)
  moreover have "\<forall>x y. 0 \<le> x \<and> x < cols_c full_example \<and> 0 \<le> y \<and> y < rows_c full_example
      \<longrightarrow> (x, y) \<in> set (snake_c full_example)"
    using full_snake_covers by (simp add: full_example_def)
  ultimately have "food_c (spawnFood_c rnd_half full_example) = Some fallbackFood
      \<and> (0, 0) \<in> set (snake_c full_example)"
    by (rule spawnFood_c_full_grid)
  then show ?thesis by (simp add: fallbackFood_def)
qed









section \<open>Where the high score is recorded\<close>

lemma eating_example_tick:
  "tick rnd_half eating_example =
     Inr (eating_example\<lparr>snake_a := [(6, 5), (5, 5)], score_a := 10, apple_a := Some (14, 14),
            calls_a := 9\<rparr>)"
  by (simp add: tick_def eatApple_def spawnApple_def spawnApple_while.simps eating_example_def
      rnd_half_def Let_def some_idx_tail js_rem_mod width_def rows_a_def randInt_def)

lemma tick_running_keeps_highScore:
  assumes "tick rnd a = Inr a'" and "running_a a'"
  shows "highScore_a a' = highScore_a a \<and> localStorage_a a' = localStorage_a a"
proof (cases "snake_a a")
  case Nil
  with assms(1) show ?thesis by (simp add: tick_def)
next
  case (Cons h rest)
  show ?thesis
  proof (cases "nextHead a \<in> set rest \<or> nextHead a \<in> set (obstacles_a a)")
    case True
    from tick_collision [OF Cons True, of rnd] assms show ?thesis
      by (simp add: gameOver_fields)
  next
    case False
    with tick_move [OF Cons, of rnd] assms(1) show ?thesis by auto
  qed
qed

lemma gameOver_highScore:
  "gt (score_a a) (highScore_a a) \<Longrightarrow>
   highScore_a (gameOver a) = Num (score_a a)
   \<and> localStorage_a (gameOver a) ''snake_high'' = Some (String_js (score_a a))"
  by (simp add: gameOver_def Let_def setItem_def)

lemma triggerGameOver_highScore:
  "score_c c > highScore_c c \<Longrightarrow>
   highScore_c (triggerGameOver c) = score_c c
   \<and> localStorage_c (triggerGameOver c) STORAGE_KEY = Some (String_js (score_c c))"
  by (simp add: triggerGameOver_def Let_def setItem_def)

lemma update_c_running_keeps_highScore:
  assumes "\<not> isGameOver_c (update_c dt rnd c)"
  shows "highScore_c (update_c dt rnd c) = highScore_c c
    \<and> localStorage_c (update_c dt rnd c) = localStorage_c c"
proof -
  let ?s2 = "advance_c dt (consumePending_c c)"
  let ?p = "cellOf ?s2"
  have n: "\<not> isGameOver_c c" using assms by (auto simp: update_c_def)
  show ?thesis
  proof (cases "fst ?p \<noteq> fst (headPrevCell_c ?s2) \<or> snd ?p \<noteq> snd (headPrevCell_c ?s2)")
    case False
    with n show ?thesis by (simp add: update_c_def Let_def prelude_fields)
  next
    case True
    with n have u: "update_c dt rnd c = enterCell rnd ?p ?s2" by (simp add: update_c_def Let_def)
    show ?thesis
    proof (cases "outside_c ?s2 ?p \<or> ?p \<in> set (snake_c ?s2)")
      case True
      from enterCell_hit [OF True, of rnd] u assms show ?thesis
        by (simp add: triggerGameOver_fields)
    next
      case False
      with enterCell_free [of ?s2 ?p rnd] u show ?thesis by (simp add: prelude_fields)
    qed
  qed
qed

text \<open>
  Claim C5: whenever the score exceeds the recorded high score, the high score is updated
  and persisted, both on each food consumption while running and at game over. \<open>tick\<close> of
  \<^verbatim>\<open>app.js\<close> has no such test where the apple is eaten: in \<open>eating_example\<close> the tick
  raises the score from 0 to 10, above the high score 0, the game still runs, and the high
  score and the storage are left as they were.
\<close>

theorem tick_eating_keeps_high_score:
  "\<exists>s'. tick rnd_half eating_example = Inr s' \<and> running_a s' \<and> score_a s' = 10
     \<and> highScore_a eating_example = Num 0 \<and> gt (score_a s') (highScore_a eating_example)
     \<and> highScore_a s' = Num 0 \<and> localStorage_a s' ''snake_high'' = None"
  by (simp add: eating_example_tick) (simp add: eating_example_def)

text \<open>
  Claim C5 as the code has it: in \<^verbatim>\<open>src/game.js\<close> a score above the high score is
  recorded and persisted at once when food is consumed in \<open>update\<close>, and again in
  \<open>endGame\<close>; in \<^verbatim>\<open>app.js\<close> and in part_001 it is recorded and persisted at game over
  (\<open>gameOver\<close>, \<open>triggerGameOver\<close>), while a tick or update that leaves the game running
  changes neither the high score nor the storage.
\<close>

theorem high_score_triggers:
  "(\<forall>g'. update_g dt rnd fuel g = Inr g' \<and> score_g g' \<noteq> score_g g \<and> gt (score_g g') (highScore_g g) \<longrightarrow>
      highScore_g g' = Num (score_g g')
      \<and> localStorage_g g' localStorageKey = Some (String_js (score_g g')))
   \<and> (gt (score_g g) (highScore_g g) \<longrightarrow>
        highScore_g (endGame g) = Num (score_g g)
        \<and> localStorage_g (endGame g) localStorageKey = Some (String_js (score_g g)))
   \<and> (gt (score_a a) (highScore_a a) \<longrightarrow>
        highScore_a (gameOver a) = Num (score_a a)
        \<and> localStorage_a (gameOver a) ''snake_high'' = Some (String_js (score_a a)))
   \<and> (\<forall>a'. tick rnda a = Inr a' \<and> running_a a' \<longrightarrow>
        highScore_a a' = highScore_a a \<and> localStorage_a a' = localStorage_a a)
   \<and> (score_c c > highScore_c c \<longrightarrow>
        highScore_c (triggerGameOver c) = score_c c
        \<and> localStorage_c (triggerGameOver c) STORAGE_KEY = Some (String_js (score_c c)))
   \<and> (\<not> isGameOver_c (update_c dtc rndc c) \<longrightarrow>
        highScore_c (update_c dtc rndc c) = highScore_c c
        \<and> localStorage_c (update_c dtc rndc c) = localStorage_c c)"
  using update_g_highScore [of dt rnd fuel g] endGame_highScore(1) [of g] gameOver_highScore [of a]
    tick_running_keeps_highScore [of rnda a] triggerGameOver_highScore [of c]
    update_c_running_keeps_highScore [of dtc rndc c]
  by blast

theorem high_score_triggers_witness:
  "(\<exists>g'. update_g (1 / 10) rnd_half 1 crossing_example = Inr g' \<and> score_g g' = 1
        \<and> highScore_g crossing_example = Num 0 \<and> highScore_g g' = Num 1
        \<and> localStorage_g g' localStorageKey = Some (String_js 1))
   \<and> highScore_g (endGame (crossing_example\<lparr>score_g := 7\<rparr>)) = Num 7
   \<and> localStorage_g (endGame (crossing_example\<lparr>score_g := 7\<rparr>)) localStorageKey = Some (String_js 7)
   \<and> highScore_a (gameOver loop_example) = Num 30
   \<and> localStorage_a (gameOver loop_example) ''snake_high'' = Some (String_js 30)
   \<and> (\<exists>a'. tick rnd_half eating_example = Inr a' \<and> running_a a' \<and> score_a a' = 10
        \<and> highScore_a a' = Num 0 \<and> localStorage_a a' = Map.empty)
   \<and> highScore_c (triggerGameOver tail_example) = 1
   \<and> localStorage_c (triggerGameOver tail_example) STORAGE_KEY = Some (String_js 1)
   \<and> \<not> isGameOver_c (update_c 0 rnd_half tail_example)
   \<and> highScore_c (update_c 0 rnd_half tail_example) = 0
   \<and> localStorage_c (update_c 0 rnd_half tail_example) = Map.empty"
proof -
  define g' where "g' = crossing_example\<lparr>head_g := (104, 110),
        segments_g := [(104, 110), (123, 110), (138, 122), (119, 122), (100, 122), (81, 122), (62, 122)],
        score_g := 1, length_g := 6,
        food_g := Some \<lparr>food_x = 407, food_y = 253, food_color = ''#2196f3'', food_points = 5\<rparr>,
        calls_g := 3, highScore_g := Num 1,
        localStorage_g := [localStorageKey \<mapsto> ''1''],
        gameOver_g := True, running_g := False, paused_g := True\<rparr>"
  define a' where "a' = eating_example\<lparr>snake_a := [(6, 5), (5, 5)], score_a := 10,
        apple_a := Some (14, 14), calls_a := 9\<rparr>"
  define g7 where "g7 = crossing_example\<lparr>score_g := 7\<rparr>"
  have u: "update_g (1 / 10) rnd_half 1 crossing_example = Inr g'"
    unfolding g'_def by (rule crossing_update)
  have g: "score_g g' = 1" "score_g crossing_example = 0" "highScore_g crossing_example = Num 0"
    by (simp_all add: g'_def crossing_example_def)
  have g7: "score_g g7 = 7" "highScore_g g7 = Num 0" by (simp_all add: g7_def crossing_example_def)
  have t: "tick rnd_half eating_example = Inr a'"
    unfolding a'_def by (rule eating_example_tick)
  have a: "running_a a'" "score_a a' = 10" "highScore_a eating_example = Num 0"
    "localStorage_a eating_example = Map.empty"
    by (simp_all add: a'_def eating_example_def)
  have l: "score_a loop_example = 30" "highScore_a loop_example = Num 0"
    by (simp_all add: loop_example_def)
  have c: "score_c tail_example = 1" "highScore_c tail_example = 0"
    "localStorage_c tail_example = Map.empty"
    by (simp_all add: tail_example_def)
  have n: "\<not> isGameOver_c (update_c 0 rnd_half tail_example)"
    by (simp add: update_c_def Let_def advance_c_def consumePending_c_def cellOf_def
        Math_round_def tail_example_def)
  from high_score_triggers [of "1 / 10" rnd_half 1 crossing_example loop_example rnd_half
      tail_example 0 rnd_half]
    high_score_triggers [of "1 / 10" rnd_half 1 g7 eating_example rnd_half tail_example 0 rnd_half]
    u g g7 t a l c n
  show ?thesis unfolding g7_def [symmetric] by (auto simp: )
qed

section \<open>No reversal between two ticks\<close>

lemma reverse_self: "d \<noteq> (0, 0) \<Longrightarrow> reverse d \<noteq> d"
  by (cases d) (auto simp: reverse_def)

lemma reverse_eq: "p = reverse d \<longleftrightarrow> fst p = - fst d \<and> snd p = - snd d"
  by (cases p) (auto simp: reverse_def)

lemma setDirection_g_keeps:
  "dir_g (setDirection_g dx dy s) = dir_g s"
  "pendingDir_g s \<noteq> Some (reverse (dir_g s)) \<Longrightarrow>
   pendingDir_g (setDirection_g dx dy s) \<noteq> Some (reverse (dir_g s))"
  by (auto simp: setDirection_g_def reverse_def)

lemma proposals_g_keep:
  "dir_g (foldl (\<lambda>s p. setDirection_g (fst p) (snd p) s) g ps) = dir_g g
   \<and> (pendingDir_g g \<noteq> Some (reverse (dir_g g)) \<longrightarrow>
        pendingDir_g (foldl (\<lambda>s p. setDirection_g (fst p) (snd p) s) g ps) \<noteq> Some (reverse (dir_g g)))"
proof (induction ps arbitrary: g)
  case Nil
  show ?case by simp
next
  case (Cons p ps)
  from Cons [of "setDirection_g (fst p) (snd p) g"] setDirection_g_keeps [where s = g and dx = "fst p" and dy = "snd p"]
  show ?case by simp
qed

lemma applyPending_dir:
  "dir_g s \<noteq> (0, 0) \<Longrightarrow> pendingDir_g s \<noteq> Some (reverse (dir_g s)) \<Longrightarrow>
   dir_g (applyPending s) \<noteq> reverse (dir_g s)"
  using reverse_self [of "dir_g s"] by (auto simp: applyPending_def split: option.splits)

lemma setDirection_c_keeps:
  "dir_c (setDirection_c nx ny s) = dir_c s"
  "isGameOver_c (setDirection_c nx ny s) = isGameOver_c s"
  by (simp_all add: setDirection_c_def)

lemma proposals_c_keep:
  "dir_c (foldl (\<lambda>s p. setDirection_c (fst p) (snd p) s) c qs) = dir_c c"
proof (induction qs arbitrary: c)
  case Nil
  show ?case by simp
next
  case (Cons p qs)
  from Cons [of "setDirection_c (fst p) (snd p) c"] show ?case
    by (simp add: setDirection_c_keeps)
qed

lemma consumePending_c_dir:
  assumes "dir_c s \<noteq> (0, 0)"
  shows "dir_c (consumePending_c s) \<noteq> reverse (dir_c s)"
proof (cases "pendingDir_c s")
  case None
  then have "dir_c (consumePending_c s) = dir_c s" by (simp add: consumePending_c_def)
  with reverse_self [OF assms] show ?thesis by simp
next
  case (Some pd)
  show ?thesis
  proof (cases "fst pd = - fst (dir_c s) \<and> snd pd = - snd (dir_c s)")
    case True
    with Some have "dir_c (consumePending_c s) = dir_c s" by (simp add: consumePending_c_def)
    with reverse_self [OF assms] show ?thesis by simp
  next
    case False
    with Some have "dir_c (consumePending_c s) = pd" by (simp add: consumePending_c_def)
    moreover have "pd \<noteq> reverse (dir_c s)" using False by (simp add: reverse_eq)
    ultimately show ?thesis by simp
  qed
qed

lemma tick_dirs:
  assumes "tick rnd s = Inr s'"
  shows "dir_a s' = nextDir_a s \<and> nextDir_a s' = nextDir_a s"
proof (cases "snake_a s")
  case Nil
  with assms show ?thesis by (simp add: tick_def)
next
  case (Cons h rest)
  show ?thesis
  proof (cases "nextHead s \<in> set rest \<or> nextHead s \<in> set (obstacles_a s)")
    case True
    from tick_collision [OF Cons True, of rnd] assms show ?thesis
      by (auto simp: gameOver_fields)
  next
    case False
    with tick_move [OF Cons, of rnd] assms show ?thesis by auto
  qed
qed

lemma input_a_keeps:
  assumes "inv_a s" and "nextDir_a s \<noteq> reverse (dir_a s)"
  shows "inv_a (input_a ev s) \<and> dir_a (input_a ev s) = dir_a s
    \<and> nextDir_a (input_a ev s) \<noteq> reverse (dir_a s)"
proof (cases ev)
  case (Key key)
  have "dir_a (keydown_a key s) = dir_a s \<and> nextDir_a (keydown_a key s) \<noteq> reverse (dir_a s)"
    using assms(2)
    by (auto simp: keydown_a_def Let_def togglePause_a_def startWithCountdown_def reverse_eq)
  with Key assms(1) show ?thesis by (simp add: inv_keydown)
next
  case (Touch dirStr)
  have "dir_a (applyDirection dirStr s) = dir_a s
      \<and> nextDir_a (applyDirection dirStr s) \<noteq> reverse (dir_a s)"
    using assms(2) by (auto simp: applyDirection_def reverse_eq split: option.splits)
  with Touch assms(1) show ?thesis by (simp add: inv_applyDirection)
qed

lemma inputs_a_keep:
  "inv_a s \<Longrightarrow> nextDir_a s \<noteq> reverse (dir_a s) \<Longrightarrow>
   inv_a (foldl (\<lambda>s ev. input_a ev s) s evs) \<and> dir_a (foldl (\<lambda>s ev. input_a ev s) s evs) = dir_a s
   \<and> nextDir_a (foldl (\<lambda>s ev. input_a ev s) s evs) \<noteq> reverse (dir_a s)"
proof (induction evs arbitrary: s)
  case Nil
  then show ?case by simp
next
  case (Cons ev evs)
  from input_a_keeps [OF Cons.prems, of ev]
  have k: "inv_a (input_a ev s)" "dir_a (input_a ev s) = dir_a s"
    "nextDir_a (input_a ev s) \<noteq> reverse (dir_a (input_a ev s))"
    by simp_all
  from Cons.IH [OF k(1) k(3)] k(2) show ?case by simp
qed

lemma isUnit_nonzero: "isUnit d \<Longrightarrow> d \<noteq> (0, 0)"
  by (auto simp: isUnit_def)

text \<open>
  Claim C2: whatever directions are proposed between two consecutive ticks, the direction
  applied at the next tick is never the exact negation of the one applied at this tick.
  In \<^verbatim>\<open>src/game.js\<close> the state a tick leaves has no pending direction (\<open>update_g_dir\<close>), and
  every proposal is compared with the current direction; in \<^verbatim>\<open>app.js\<close> the first accepted
  input blocks the later ones until the next tick; in part_001 \<open>update\<close> compares once
  more. Directions are unit steps, so the current one is not \<open>(0, 0)\<close>. Only proposals
  stand between the two ticks here; a reset between them is another matter (see
  \<open>stale_pending_reverses_after_restart\<close>).
\<close>

theorem no_reverse_between_ticks:
  "(pendingDir_g g = None \<and> dir_g g \<noteq> (0, 0) \<longrightarrow>
      dir_g (applyPending (foldl (\<lambda>s p. setDirection_g (fst p) (snd p) s) g ps)) \<noteq> reverse (dir_g g)
      \<and> (\<forall>g'. update_g dt rnd fuel (foldl (\<lambda>s p. setDirection_g (fst p) (snd p) s) g ps) = Inr g'
            \<longrightarrow> dir_g g' \<noteq> reverse (dir_g g)))
   \<and> (inv_a a \<longrightarrow>
        (\<exists>a1 a2. tick rnda a = Inr a1 \<and> tick rnda (foldl (\<lambda>s ev. input_a ev s) a1 evs) = Inr a2
           \<and> dir_a a2 \<noteq> reverse (dir_a a1)))
   \<and> (dir_c c \<noteq> (0, 0) \<longrightarrow>
        dir_c (update_c dtc rndc (foldl (\<lambda>s p. setDirection_c (fst p) (snd p) s) c qs))
          \<noteq> reverse (dir_c c))"
proof (intro conjI impI allI)
  let ?g = "foldl (\<lambda>s p. setDirection_g (fst p) (snd p) s) g ps"
  assume h: "pendingDir_g g = None \<and> dir_g g \<noteq> (0, 0)"
  then have k: "dir_g ?g = dir_g g" "pendingDir_g ?g \<noteq> Some (reverse (dir_g g))"
    using proposals_g_keep [of g ps] by simp_all
  with h show d: "dir_g (applyPending ?g) \<noteq> reverse (dir_g g)"
    using applyPending_dir [of ?g] by simp
  fix g' assume "update_g dt rnd fuel ?g = Inr g'"
  from update_g_dir [OF this] d show "dir_g g' \<noteq> reverse (dir_g g)" by simp
next
  assume i: "inv_a a"
  then obtain a1 where a1: "tick rnda a = Inr a1" "inv_a a1" using inv_tick by blast
  have e: "nextDir_a a1 = dir_a a1" using tick_dirs [OF a1(1)] by simp
  have "dir_a a1 \<noteq> (0, 0)" using a1(2) by (simp add: inv_a_def isUnit_nonzero)
  then have "nextDir_a a1 \<noteq> reverse (dir_a a1)" using e reverse_self [of "dir_a a1"] by simp
  from inputs_a_keep [OF a1(2) this, of evs]
  have k: "inv_a (foldl (\<lambda>s ev. input_a ev s) a1 evs)"
    "nextDir_a (foldl (\<lambda>s ev. input_a ev s) a1 evs) \<noteq> reverse (dir_a a1)"
    by simp_all
  from k(1) obtain a2 where a2: "tick rnda (foldl (\<lambda>s ev. input_a ev s) a1 evs) = Inr a2"
    using inv_tick by blast
  have "dir_a a2 \<noteq> reverse (dir_a a1)" using tick_dirs [OF a2] k(2) by simp
  with a1(1) a2 show "\<exists>a1 a2. tick rnda a = Inr a1
      \<and> tick rnda (foldl (\<lambda>s ev. input_a ev s) a1 evs) = Inr a2 \<and> dir_a a2 \<noteq> reverse (dir_a a1)"
    by blast
next
  let ?c = "foldl (\<lambda>s p. setDirection_c (fst p) (snd p) s) c qs"
  assume h: "dir_c c \<noteq> (0, 0)"
  have k: "dir_c ?c = dir_c c" by (rule proposals_c_keep)
  with h have "dir_c (consumePending_c ?c) \<noteq> reverse (dir_c c)"
    using consumePending_c_dir [of ?c] by simp
  moreover have "dir_c ?c \<noteq> reverse (dir_c c)" using k h reverse_self [of "dir_c c"] by simp
  ultimately show "dir_c (update_c dtc rndc ?c) \<noteq> reverse (dir_c c)"
    by (simp add: update_c_dir)
qed

theorem no_reverse_between_ticks_witness:
  "dir_g (applyPending (foldl (\<lambda>s p. setDirection_g (fst p) (snd p) s) idle_example [(0, - 1), (- 1, 0)]))
     \<noteq> reverse (dir_g idle_example)
   \<and> (\<exists>a1 a2. tick rnd_half running_example = Inr a1
        \<and> tick rnd_half (foldl (\<lambda>s ev. input_a ev s) a1 [Key ''ArrowUp'', Touch ''left'', Key ''ArrowDown'']) = Inr a2
        \<and> dir_a a2 \<noteq> reverse (dir_a a1))
   \<and> dir_c (update_c 0 rnd_half (foldl (\<lambda>s p. setDirection_c (fst p) (snd p) s) tail_example [(1, 0), (0, - 1)]))
        \<noteq> reverse (dir_c tail_example)"
proof -
  have g: "pendingDir_g idle_example = None \<and> dir_g idle_example \<noteq> (0, 0)"
    by (simp add: idle_example_def)
  have a: "inv_a running_example" by (rule reachable_inv [OF running_example_facts(1)])
  have c: "dir_c tail_example \<noteq> (0, 0)" by (simp add: tail_example_def)
  from no_reverse_between_ticks [of idle_example "[(0, - 1), (- 1, 0)]" 0 rnd_half 0 running_example
      rnd_half "[Key ''ArrowUp'', Touch ''left'', Key ''ArrowDown'']" tail_example 0 rnd_half
      "[(1, 0), (0, - 1)]"] g a c
  show ?thesis by blast
qed

end
